theory Spec2Isabelle
  imports Complex_Main
begin

section \<open>Thrown values\<close>

text \<open>
  What a JavaScript \<^verbatim>\<open>catch\<close> of this package can receive.  \<open>ROLLBACK\<close> is the
  module-private object \<^verbatim>\<open>const ROLLBACK = { [Symbol.for(...)]: true }\<close>; it is compared
  with \<^verbatim>\<open>===\<close>, that is by identity, so it is a value of its own, different from every
  other one.  \<open>Nullish\<close> stands for \<^verbatim>\<open>null\<close> and \<^verbatim>\<open>undefined\<close>.  \<open>Coded c m\<close> is an
  object whose \<^verbatim>\<open>code\<close> property is the string \<open>c\<close> (the data-access client's request
  errors), \<open>Uncoded m\<close> any other value: no \<^verbatim>\<open>code\<close> property, or one that is not a
  string.
\<close>

datatype thrown = ROLLBACK | Nullish | Coded string string | Uncoded string

text \<open>\<^verbatim>\<open>e?.code\<close>, when it is a string.\<close>

fun code :: "thrown \<Rightarrow> string option" where
  "code ROLLBACK = None"
| "code Nullish = None"
| "code (Coded c m) = Some c"
| "code (Uncoded m) = None"

text \<open>
  The operator \<^verbatim>\<open>a ?? b\<close>: \<open>nullish\<close> when \<open>b\<close> may be absent too, \<open>coalesce\<close> when
  \<open>b\<close> is a value.
\<close>

definition nullish :: "'a option \<Rightarrow> 'a option \<Rightarrow> 'a option" where
  "nullish a b = (case a of Some v \<Rightarrow> Some v | None \<Rightarrow> b)"

definition coalesce :: "'a option \<Rightarrow> 'a \<Rightarrow> 'a" where
  "coalesce a b = (case a of Some v \<Rightarrow> v | None \<Rightarrow> b)"

section \<open>Promises\<close>

text \<open>
  The values the promises of \<^verbatim>\<open>$begin\<close> are fulfilled with: \<^verbatim>\<open>undefined\<close>, or a
  transactional client (the object the underlying client hands to the callback of
  \<^verbatim>\<open>$transaction\<close>, known by its identity).
\<close>

datatype jsval = Undefined | TxClient nat

datatype promise = Pending | Fulfilled jsval | Rejected thrown

text \<open>
  The two functions an executor \<^verbatim>\<open>new Promise((res, rej) => ...)\<close> receives.  A promise
  settles once: on a settled promise they do nothing.
\<close>

fun resolve_promise :: "jsval \<Rightarrow> promise \<Rightarrow> promise" where
  "resolve_promise v Pending = Fulfilled v"
| "resolve_promise v (Fulfilled u) = Fulfilled u"
| "resolve_promise v (Rejected e) = Rejected e"

fun reject_promise :: "thrown \<Rightarrow> promise \<Rightarrow> promise" where
  "reject_promise e Pending = Rejected e"
| "reject_promise e (Fulfilled u) = Fulfilled u"
| "reject_promise e (Rejected d) = Rejected d"

text \<open>
  \<^verbatim>\<open>p.catch(handler)\<close>: the state of the derived promise, given the state of \<open>p\<close>.  A
  handler returns a value (\<open>Inr\<close>) or throws (\<open>Inl\<close>).
\<close>

fun catch_promise :: "(thrown \<Rightarrow> thrown + jsval) \<Rightarrow> promise \<Rightarrow> promise" where
  "catch_promise handler Pending = Pending"
| "catch_promise handler (Fulfilled v) = Fulfilled v"
| "catch_promise handler (Rejected e) =
     (case handler e of Inr v \<Rightarrow> Fulfilled v | Inl e' \<Rightarrow> Rejected e')"

section \<open>Retrying transactions\<close>

text \<open>
  \<^verbatim>\<open>retry: (e) => { return e?.code === "P2034"; }\<close>, the classifier that
  \<open>RetryTransactions\<close> hands to the backoff primitive.
\<close>

definition default_retry :: "thrown \<Rightarrow> bool" where
  "default_retry e = (code e = Some ''P2034'')"

text \<open>
  A key of an options object: absent, present with the value \<^verbatim>\<open>undefined\<close>, or
  present with a value.
\<close>

datatype 'a key = Absent | IsUndefined | Has 'a

text \<open>
  The caller's \<^verbatim>\<open>options?: Partial<IBackOffOptions>\<close>, as far as they decide whether an
  attempt is made: the classifier and the attempt limit (the delays only decide when).
  The classifier is a function of the failure, as in the spec.
\<close>

record partial_options =
  retry_opt :: "(thrown \<Rightarrow> bool) key"
  numOfAttempts_opt :: "nat key"

text \<open>
  \<^verbatim>\<open>{ retry: (e) => e?.code === "P2034", ...options }\<close>, the object handed to the backoff
  primitive.  Its key \<^verbatim>\<open>retry\<close> is always present; the spread comes after it and copies
  every key the caller's options have, also one that holds \<^verbatim>\<open>undefined\<close>, so the default
  classifier stays only when the caller's options have no key \<^verbatim>\<open>retry\<close>.  \<open>retry_arg\<close>
  is \<open>None\<close> when the key holds \<^verbatim>\<open>undefined\<close>.
\<close>

record spread_options =
  retry_arg :: "(thrown \<Rightarrow> bool) option"
  numOfAttempts_arg :: "nat key"

definition merged_options :: "partial_options option \<Rightarrow> spread_options" where
  "merged_options options =
     (case options of
        None \<Rightarrow> \<lparr>retry_arg = Some default_retry, numOfAttempts_arg = Absent\<rparr>
      | Some opts \<Rightarrow>
          \<lparr>retry_arg =
             (case retry_opt opts of
                Absent \<Rightarrow> Some default_retry
              | IsUndefined \<Rightarrow> None
              | Has classifier \<Rightarrow> Some classifier),
           numOfAttempts_arg = numOfAttempts_opt opts\<rparr>)"

text \<open>
  Modelled from the spec: the backoff primitive \<^verbatim>\<open>backOff\<close> of the package
  \<^verbatim>\<open>exponential-backoff\<close>, which is not part of this repository.  The spec (4.2):
  it repeatedly executes the operation; on failure it consults the classifier; if
  true it waits and retries; if false, or attempts exhausted, it propagates the last
  error unchanged.  \<open>request k\<close> is what the \<open>k\<close>-th execution of the operation
  returns (counted from 0).  The result comes with the number of executions made.
\<close>

record backoff_options =
  retry :: "thrown \<Rightarrow> bool"
  numOfAttempts :: nat

function backOff_from ::
  "(nat \<Rightarrow> thrown + 'a) \<Rightarrow> backoff_options \<Rightarrow> nat \<Rightarrow> (thrown + 'a) \<times> nat" where
  "backOff_from request options k =
     (case request k of
        Inr v \<Rightarrow> (Inr v, Suc k)
      | Inl e \<Rightarrow>
          if retry options e \<and> Suc k < numOfAttempts options
          then backOff_from request options (Suc k)
          else (Inl e, Suc k))"
  by pat_completeness auto
termination
  by (relation "measure (\<lambda>(request, options, k). numOfAttempts options - k)") auto

declare backOff_from.simps [simp del]

text \<open>
  Modelled from the spec: the call \<^verbatim>\<open>backOff(request, options)\<close>.  The spec describes
  the primitive for a classifier and an attempt limit, and lets callers override any
  backoff parameter: an absent limit is the primitive's own default
  \<open>primitive_attempts\<close>, which this repository does not set.  Of options that hold
  \<^verbatim>\<open>undefined\<close> in place of the classifier or of the limit the spec says nothing, and
  the model answers \<open>NotSpecified\<close>.
\<close>

datatype 'a backoff_run = Ran "thrown + 'a" nat | NotSpecified

definition backOff ::
  "(nat \<Rightarrow> thrown + 'a) \<Rightarrow> spread_options \<Rightarrow> nat \<Rightarrow> 'a backoff_run" where
  "backOff request options primitive_attempts =
     (case retry_arg options of
        None \<Rightarrow> NotSpecified
      | Some classifier \<Rightarrow>
          (case numOfAttempts_arg options of
             IsUndefined \<Rightarrow> NotSpecified
           | Absent \<Rightarrow>
               (let (result, attempts) =
                      backOff_from request
                        \<lparr>retry = classifier, numOfAttempts = primitive_attempts\<rparr> 0
                in Ran result attempts)
           | Has limit \<Rightarrow>
               (let (result, attempts) =
                      backOff_from request \<lparr>retry = classifier, numOfAttempts = limit\<rparr> 0
                in Ran result attempts)))"

text \<open>
  \<^verbatim>\<open>$transaction(...args) { return backOff(() => prisma.$transaction.apply(prisma, args),
     { retry: ..., ...options }) }\<close>
  \<open>transaction k\<close> is what the \<open>k\<close>-th call of the underlying \<^verbatim>\<open>$transaction\<close> returns.
\<close>

definition RetryTransactions ::
  "partial_options option \<Rightarrow> nat \<Rightarrow> (nat \<Rightarrow> thrown + 'a) \<Rightarrow> 'a backoff_run" where
  "RetryTransactions options primitive_attempts transaction =
     backOff transaction (merged_options options) primitive_attempts"

section \<open>Externally controlled transactions\<close>

text \<open>
  The promises created so far, each known by its position, and the number of
  transactions opened on the underlying client.
\<close>

record world =
  promises :: "promise list"
  opened :: nat

definition new_promise :: "world \<Rightarrow> nat \<times> world" where
  "new_promise w = (length (promises w), w\<lparr>promises := promises w @ [Pending]\<rparr>)"

text \<open>
  The extension context \<^verbatim>\<open>prisma\<close>: whether it has a property \<^verbatim>\<open>$transaction\<close>, and
  whether that property is a function.
\<close>

datatype property = Function | NotFunction

record extension_context =
  dollar_transaction :: "property option"

text \<open>
  \<^verbatim>\<open>"$transaction" in prisma && typeof prisma.$transaction === "function"\<close>
\<close>

definition supports_transactions :: "extension_context \<Rightarrow> bool" where
  "supports_transactions prisma =
     (case dollar_transaction prisma of None \<Rightarrow> False
      | Some Function \<Rightarrow> True
      | Some NotFunction \<Rightarrow> False)"

text \<open>
  The locals of one call of \<^verbatim>\<open>$begin\<close>: the promise \<open>txClient\<close> for the inner client,
  the promise \<open>txPromise\<close> that controls the transaction, and the promise \<open>tx\<close> that
  the call of \<^verbatim>\<open>prisma.$transaction\<close> returned.  The closures \<open>setTxClient\<close>, \<open>commit\<close>
  and \<open>rollback\<close> are functions of these.
\<close>

record frame =
  txClient :: nat
  txPromise :: nat
  tx :: nat

text \<open>
  \<open>settle p f\<close> applies \<open>f\<close> to the promise at position \<open>p\<close>, and \<open>state_of w p\<close>
  reads it.  Every position in use comes from \<open>new_promise\<close> or \<open>open_transaction\<close>
  and is in range; out of range nothing is written and \<open>Pending\<close> is read.
\<close>

definition settle :: "nat \<Rightarrow> (promise \<Rightarrow> promise) \<Rightarrow> world \<Rightarrow> world" where
  "settle p f w =
     (if p < length (promises w) then w\<lparr>promises := (promises w)[p := f (promises w ! p)]\<rparr>
      else w)"

definition state_of :: "world \<Rightarrow> nat \<Rightarrow> promise" where
  "state_of w p = (if p < length (promises w) then promises w ! p else Pending)"

text \<open>
  \<^verbatim>\<open>setTxClient = (txClient) => res(txClient)\<close>,
  \<^verbatim>\<open>commit = () => _res(undefined)\<close> and \<^verbatim>\<open>rollback = () => _rej(ROLLBACK)\<close>.
\<close>

definition setTxClient :: "frame \<Rightarrow> jsval \<Rightarrow> world \<Rightarrow> world" where
  "setTxClient fr c w = settle (txClient fr) (resolve_promise c) w"

definition commit :: "frame \<Rightarrow> world \<Rightarrow> world" where
  "commit fr w = settle (txPromise fr) (resolve_promise Undefined) w"

definition rollback :: "frame \<Rightarrow> world \<Rightarrow> world" where
  "rollback fr w = settle (txPromise fr) (reject_promise ROLLBACK) w"

text \<open>
  The handler of the callback's catch:
  \<^verbatim>\<open>(e) => { if (e === ROLLBACK) return; throw e; }\<close>
\<close>

definition on_rejected :: "thrown \<Rightarrow> thrown + jsval" where
  "on_rejected e = (if e = ROLLBACK then Inr Undefined else Inl e)"

text \<open>
  The callback handed to \<^verbatim>\<open>prisma.$transaction\<close>:
  \<^verbatim>\<open>(txClient) => { setTxClient(txClient); return txPromise.catch(...) }\<close>
  \<open>callback\<close> is its effect when the underlying client invokes it, and
  \<open>callback_result\<close> the state of the promise it returned.
\<close>

definition callback :: "frame \<Rightarrow> jsval \<Rightarrow> world \<Rightarrow> world" where
  "callback fr c w = setTxClient fr c w"

definition callback_result :: "frame \<Rightarrow> world \<Rightarrow> promise" where
  "callback_result fr w = catch_promise on_rejected (state_of w (txPromise fr))"

text \<open>
  Modelled from the spec: the underlying client's \<^verbatim>\<open>$transaction\<close>, which is not part
  of this repository.  The spec (6): \<^verbatim>\<open>runTransaction(callback)\<close> executes the callback
  inside an atomic scope; it resolves with whatever the callback resolves to, or fails
  if the callback's returned future fails; it may itself fail.  \<open>open_transaction\<close> is
  the call (it returns the promise \<open>tx\<close>), and \<open>runTransaction\<close> the state of \<open>tx\<close>,
  given the state of the promise the callback returned and the failure of the client's
  own, if any.
\<close>

definition open_transaction :: "world \<Rightarrow> nat \<times> world" where
  "open_transaction w =
     (length (promises w), w\<lparr>promises := promises w @ [Pending], opened := Suc (opened w)\<rparr>)"

fun runTransaction :: "promise \<Rightarrow> thrown option \<Rightarrow> promise" where
  "runTransaction Pending failure = Pending"
| "runTransaction (Rejected e) failure = Rejected e"
| "runTransaction (Fulfilled v) None = Fulfilled v"
| "runTransaction (Fulfilled v) (Some e) = Rejected e"

text \<open>
  The handle \<^verbatim>\<open>$begin\<close> returns: a proxy of the inner client \<open>target\<close> whose
  \<^verbatim>\<open>$commit\<close> and \<^verbatim>\<open>$rollback\<close> close over the locals of the call.
\<close>

record handle =
  target :: jsval
  locals :: frame

text \<open>
  \<^verbatim>\<open>$begin\<close> up to its \<^verbatim>\<open>await txClient\<close>: the two promises are created, then the
  client is tested, and either the transaction is opened or the error is thrown.
\<close>

definition begin_start :: "extension_context \<Rightarrow> world \<Rightarrow> (thrown + frame) \<times> world" where
  "begin_start prisma w =
     (let (txClient', w1) = new_promise w;
          (txPromise', w2) = new_promise w1
      in if supports_transactions prisma
         then (let (tx', w3) = open_transaction w2
               in (Inr \<lparr>txClient = txClient', txPromise = txPromise', tx = tx'\<rparr>, w3))
         else (Inl (Uncoded ''Transactions are not supported by this client''), w2))"

text \<open>
  \<^verbatim>\<open>return new Proxy(await txClient, ...)\<close>: the call resumes once \<open>txClient\<close> is
  fulfilled; until then there is no result (\<open>None\<close>).
\<close>

definition begin_resume :: "frame \<Rightarrow> world \<Rightarrow> (thrown + handle) option" where
  "begin_resume fr w =
     (case state_of w (txClient fr) of
        Pending \<Rightarrow> None
      | Fulfilled c \<Rightarrow> Some (Inr \<lparr>target = c, locals = fr\<rparr>)
      | Rejected e \<Rightarrow> Some (Inl e))"

text \<open>
  The whole call.  \<open>started\<close> is the inner client the underlying \<^verbatim>\<open>$transaction\<close>
  invokes the callback with, or \<open>None\<close> when it never invokes it; the result \<open>None\<close>
  is a call that never returns.
\<close>

definition dollar_begin ::
  "extension_context \<Rightarrow> jsval option \<Rightarrow> world \<Rightarrow> (thrown + handle) option \<times> world" where
  "dollar_begin prisma started w =
     (case begin_start prisma w of
        (Inl e, w') \<Rightarrow> (Some (Inl e), w')
      | (Inr fr, w') \<Rightarrow>
          (case started of
             None \<Rightarrow> (None, w')
           | Some c \<Rightarrow> (let w'' = callback fr c w' in (begin_resume fr w'', w''))))"

text \<open>
  \<^verbatim>\<open>$commit: () => { commit(); return tx; }\<close> and
  \<^verbatim>\<open>$rollback: () => { rollback(); return tx; }\<close>: the promise returned and the world
  after the call.
\<close>

definition dollar_commit :: "handle \<Rightarrow> world \<Rightarrow> nat \<times> world" where
  "dollar_commit h w = (tx (locals h), commit (locals h) w)"

definition dollar_rollback :: "handle \<Rightarrow> world \<Rightarrow> nat \<times> world" where
  "dollar_rollback h w = (tx (locals h), rollback (locals h) w)"

text \<open>A sequence of calls on one handle, with the promises they return.\<close>

datatype decision = Commit | Rollback

fun decide :: "handle \<Rightarrow> decision \<Rightarrow> world \<Rightarrow> nat \<times> world" where
  "decide h Commit w = dollar_commit h w"
| "decide h Rollback w = dollar_rollback h w"

fun decide_all :: "handle \<Rightarrow> decision list \<Rightarrow> world \<Rightarrow> nat list \<times> world" where
  "decide_all h [] w = ([], w)"
| "decide_all h (d # ds) w =
     (let (p, w') = decide h d w; (ps, w'') = decide_all h ds w' in (p # ps, w''))"

text \<open>
  What the caller sees on the promise \<^verbatim>\<open>$commit\<close> and \<^verbatim>\<open>$rollback\<close> return: the
  state of the underlying transaction's run.
\<close>

definition completion :: "handle \<Rightarrow> world \<Rightarrow> thrown option \<Rightarrow> promise" where
  "completion h w failure = runTransaction (callback_result (locals h) w) failure"

section \<open>Not-found-tolerant mutations\<close>

text \<open>
  \<^verbatim>\<open>try { return await context.update(args) } catch (err) {
     if (err?.code === "P2025") return null; throw err }\<close>
  The mutation of the underlying client is the parameter \<open>update\<close> (\<open>delete\<close>): it
  returns the mutated record (\<open>Inr\<close>) or fails (\<open>Inl\<close>).  The result \<open>Inr None\<close> is
  \<^verbatim>\<open>null\<close>.
\<close>

definition updateIgnoreOnNotFound :: "('a \<Rightarrow> thrown + 'r) \<Rightarrow> 'a \<Rightarrow> thrown + 'r option" where
  "updateIgnoreOnNotFound update args =
     (case update args of
        Inr record \<Rightarrow> Inr (Some record)
      | Inl err \<Rightarrow> if code err = Some ''P2025'' then Inr None else Inl err)"

definition deleteIgnoreOnNotFound :: "('a \<Rightarrow> thrown + 'r) \<Rightarrow> 'a \<Rightarrow> thrown + 'r option" where
  "deleteIgnoreOnNotFound delete args =
     (case delete args of
        Inr record \<Rightarrow> Inr (Some record)
      | Inl err \<Rightarrow> if code err = Some ''P2025'' then Inr None else Inl err)"

section \<open>Random sampling\<close>

text \<open>
  The value of an identifier column.  The source annotates it as a string
  (\<^verbatim>\<open>rowIds: string[]\<close>, \<^verbatim>\<open>(row as unknown as { id: string }).id\<close>) but the extension
  is attached to every model, so the value may as well be a number or a bigint.
\<close>

datatype id_value = IdString string | IdNumber int | IdBigInt int

fun is_bigint :: "id_value \<Rightarrow> bool" where
  "is_bigint (IdString v) = False"
| "is_bigint (IdNumber v) = False"
| "is_bigint (IdBigInt v) = True"

text \<open>
  A row of a model: its identifier \<^verbatim>\<open>id\<close> and the rest of its columns.
\<close>

record row =
  row_id :: id_value
  payload :: int

text \<open>
  A \<^verbatim>\<open>where\<close> object is a set of keyed conditions that must all hold.  The model keeps
  the top-level key \<^verbatim>\<open>id\<close> apart, because \<open>findManyRandom\<close> writes to it, and takes the
  conjunction of all other keys as one predicate.  \<open>other_json\<close> is what
  \<^verbatim>\<open>JSON.stringify\<close> makes of those other keys: their text, or \<open>None\<close> when they hold a
  value it throws on (a bigint, which a filter on a BigInt column holds).
  \<open>empty_where\<close> is \<^verbatim>\<open>{}\<close>.
\<close>

datatype id_filter = IdEquals id_value | IdIn "id_value list" | IdNotIn "id_value list"

record where_input =
  id_key :: "id_filter option"
  other_keys :: "row \<Rightarrow> bool"
  other_json :: "string option"

definition empty_where :: where_input where
  "empty_where = \<lparr>id_key = None, other_keys = (\<lambda>r. True), other_json = Some []\<rparr>"

fun id_filter_holds :: "id_filter \<Rightarrow> id_value \<Rightarrow> bool" where
  "id_filter_holds (IdEquals v) i = (i = v)"
| "id_filter_holds (IdIn vs) i = (i \<in> set vs)"
| "id_filter_holds (IdNotIn vs) i = (i \<notin> set vs)"

definition matches :: "where_input option \<Rightarrow> row \<Rightarrow> bool" where
  "matches wh r =
     (case wh of
        None \<Rightarrow> True
      | Some w \<Rightarrow>
          (case id_key w of None \<Rightarrow> True | Some f \<Rightarrow> id_filter_holds f (row_id r))
          \<and> other_keys w r)"

text \<open>
  Modelled from the spec: the queries of the underlying data-access client, which is
  not part of this repository.  The spec (6): \<^verbatim>\<open>count(filter)\<close> is the number of
  records matching a filter, and \<^verbatim>\<open>findFirst(filter, select?, skip?)\<close> fetches one
  record after skipping N matches, or null.  A table is the list of its rows in the
  collection's natural order.  The selection \<^verbatim>\<open>select\<close> only chooses the columns
  returned and always keeps \<^verbatim>\<open>id\<close>; the model returns whole rows.
\<close>

definition count :: "row list \<Rightarrow> where_input option \<Rightarrow> nat" where
  "count table wh = length (filter (matches wh) table)"

definition findFirst :: "row list \<Rightarrow> where_input option \<Rightarrow> nat \<Rightarrow> row option" where
  "findFirst table wh skip =
     (let found = filter (matches wh) table
      in if skip < length found then Some (found ! skip) else None)"

text \<open>
  \<^verbatim>\<open>Math.max(0, Math.floor(Math.random() * numRows))\<close>, where \<open>u\<close> is the number
  \<^verbatim>\<open>Math.random()\<close> returned, taken as a real number.
\<close>

definition random_skip :: "real \<Rightarrow> int \<Rightarrow> nat" where
  "random_skip u numRows = nat (max 0 \<lfloor>u * of_int numRows\<rfloor>)"

text \<open>
  The optional argument of the two sampling functions, and \<^verbatim>\<open>args?.where\<close>.
\<close>

record sample_args =
  where_arg :: "where_input option"

definition args_where :: "sample_args option \<Rightarrow> where_input option" where
  "args_where args = (case args of None \<Rightarrow> None | Some a \<Rightarrow> where_arg a)"

text \<open>
  In what follows \<open>db k\<close> is the table as the \<open>k\<close>-th query of a call finds it
  (counted from 0): other clients may change the table between two queries.  A table
  that does not change is a constant \<open>db\<close>.

  \<^verbatim>\<open>const numRows = await context.count({ where: args?.where });
  return await context.findFirst({ ...args, skip: Math.max(0, ...) });\<close>
\<close>

definition findRandom :: "(nat \<Rightarrow> row list) \<Rightarrow> real \<Rightarrow> sample_args option \<Rightarrow> row option" where
  "findRandom db u args =
     (let numRows = int (count (db 0) (args_where args))
      in findFirst (db 1) (args_where args) (random_skip u numRows))"

text \<open>
  The variables of the loop of \<open>findManyRandom\<close>, and what it wrote with
  \<^verbatim>\<open>console.error\<close>: one entry per message, holding what the message prints of the
  \<^verbatim>\<open>where\<close> clause, the text of the caller's other keys and the \<^verbatim>\<open>notIn\<close> list.
\<close>

datatype diagnostic = GetRandomRowFailed string "id_value list"

record draw_state =
  rows :: "row list"
  rowIds :: "id_value list"
  numRows :: int
  console :: "diagnostic list"

text \<open>
  \<^verbatim>\<open>where = { ...where, id: { notIn: rowIds } }\<close>: the spread copies the caller's keys
  and the key \<^verbatim>\<open>id\<close> is then set, whatever it was.  The object holds the array
  \<open>rowIds\<close> itself, so every query sees the identifiers pushed so far.
\<close>

definition exclude :: "where_input \<Rightarrow> id_value list \<Rightarrow> where_input" where
  "exclude wh ids = wh\<lparr>id_key := Some (IdNotIn ids)\<rparr>"

text \<open>
  The template literal
  \<^verbatim>\<open>`get random row failed. Where clause: ${JSON.stringify(where)}`\<close>, evaluated on
  the \<^verbatim>\<open>where\<close> object \<open>exclude wh ids\<close>.  \<^verbatim>\<open>JSON.stringify\<close> throws a TypeError on a
  bigint, among the caller's other keys or in the \<^verbatim>\<open>notIn\<close> list; otherwise the
  message is made.
\<close>

definition type_error :: thrown where
  "type_error = Uncoded ''TypeError: Do not know how to serialize a BigInt''"

definition message :: "where_input \<Rightarrow> id_value list \<Rightarrow> thrown + diagnostic" where
  "message wh ids =
     (case other_json wh of
        None \<Rightarrow> Inl type_error
      | Some json \<Rightarrow>
          if list_ex is_bigint ids then Inl type_error
          else Inr (GetRandomRowFailed json ids))"

text \<open>
  \<^verbatim>\<open>for (let i = 0; i < num && numRows > 0; ++i) {
    const row = await context.findFirst({ select, where, skip: Math.max(0, ...) });
    if (!row) { console.error(`... ${JSON.stringify(where)}`); break; }
    rows.push(row); rowIds.push(row.id); numRows--;
  }\<close>
  \<open>rnd i\<close> is the number \<^verbatim>\<open>Math.random()\<close> returns in iteration \<open>i\<close>; the query of
  iteration \<open>i\<close> is query \<open>Suc i\<close> of the call.  \<open>draw\<close> is the query of one
  iteration and \<open>pushed\<close> the three updates that follow a row.  The loop returns its
  variables as they are when it is left, and the value thrown out of it, if any: the
  argument of \<^verbatim>\<open>console.error\<close> is evaluated first, and when that throws, nothing is
  written and the \<^verbatim>\<open>break\<close> is not reached.
\<close>

definition draw ::
  "(nat \<Rightarrow> row list) \<Rightarrow> (nat \<Rightarrow> real) \<Rightarrow> where_input \<Rightarrow> nat \<Rightarrow> draw_state \<Rightarrow> row option" where
  "draw db rnd wh i st =
     findFirst (db (Suc i)) (Some (exclude wh (rowIds st))) (random_skip (rnd i) (numRows st))"

definition pushed :: "draw_state \<Rightarrow> row \<Rightarrow> draw_state" where
  "pushed st row =
     st\<lparr>rows := rows st @ [row], rowIds := rowIds st @ [row_id row], numRows := numRows st - 1\<rparr>"

function draw_loop ::
  "(nat \<Rightarrow> row list) \<Rightarrow> (nat \<Rightarrow> real) \<Rightarrow> where_input \<Rightarrow> int \<Rightarrow> nat \<Rightarrow> draw_state \<Rightarrow>
     draw_state \<times> thrown option" where
  "draw_loop db rnd wh num i st =
     (if int i < num \<and> numRows st > 0 then
        (case draw db rnd wh i st of
           None \<Rightarrow>
             (case message wh (rowIds st) of
                Inl e \<Rightarrow> (st, Some e)
              | Inr d \<Rightarrow> (st\<lparr>console := console st @ [d]\<rparr>, None))
         | Some row \<Rightarrow> draw_loop db rnd wh num (Suc i) (pushed st row))
      else (st, None))"
  by pat_completeness auto
termination
  by (relation "measure (\<lambda>(db, rnd, wh, num, i, st). nat (num - int i))") auto

declare draw_loop.simps [simp del]

text \<open>
  The states in which the loop evaluates its condition, in order: the first is the
  state before the loop, and each further one follows a draw that returned a row.
\<close>

function draw_states ::
  "(nat \<Rightarrow> row list) \<Rightarrow> (nat \<Rightarrow> real) \<Rightarrow> where_input \<Rightarrow> int \<Rightarrow> nat \<Rightarrow> draw_state \<Rightarrow> draw_state list" where
  "draw_states db rnd wh num i st =
     st #
     (if int i < num \<and> numRows st > 0 then
        (case draw db rnd wh i st of
           None \<Rightarrow> []
         | Some row \<Rightarrow> draw_states db rnd wh num (Suc i) (pushed st row))
      else [])"
  by pat_completeness auto
termination
  by (relation "measure (\<lambda>(db, rnd, wh, num, i, st). nat (num - int i))") auto

declare draw_states.simps [simp del]

text \<open>
  \<^verbatim>\<open>let where = args?.where ?? {};
  let numRows = await context.count({ where });
  const rows = []; const rowIds = [];\<close>
\<close>

definition draw_init :: "(nat \<Rightarrow> row list) \<Rightarrow> sample_args option \<Rightarrow> draw_state" where
  "draw_init db args =
     (let wh = coalesce (args_where args) empty_where
      in \<lparr>rows = [], rowIds = [], numRows = int (count (db 0) (Some wh)), console = []\<rparr>)"

text \<open>
  \<open>findManyRandom_run\<close> is the loop's variables when the loop is left, and
  \<open>findManyRandom\<close> the call: it fails with what the loop threw, or else
  \<^verbatim>\<open>return rows\<close>.
\<close>

definition findManyRandom_run ::
  "(nat \<Rightarrow> row list) \<Rightarrow> (nat \<Rightarrow> real) \<Rightarrow> int \<Rightarrow> sample_args option \<Rightarrow> draw_state" where
  "findManyRandom_run db rnd num args =
     fst (draw_loop db rnd (coalesce (args_where args) empty_where) num 0 (draw_init db args))"

definition findManyRandom ::
  "(nat \<Rightarrow> row list) \<Rightarrow> (nat \<Rightarrow> real) \<Rightarrow> int \<Rightarrow> sample_args option \<Rightarrow> thrown + row list" where
  "findManyRandom db rnd num args =
     (case draw_loop db rnd (coalesce (args_where args) empty_where) num 0 (draw_init db args) of
        (st, Some e) \<Rightarrow> Inl e
      | (st, None) \<Rightarrow> Inr (rows st))"

definition findManyRandom_states ::
  "(nat \<Rightarrow> row list) \<Rightarrow> (nat \<Rightarrow> real) \<Rightarrow> int \<Rightarrow> sample_args option \<Rightarrow> draw_state list" where
  "findManyRandom_states db rnd num args =
     draw_states db rnd (coalesce (args_where args) empty_where) num 0 (draw_init db args)"

section \<open>Offset pagination\<close>

text \<open>
  \<^verbatim>\<open>type Pagination = { take?: number; skip?: number }\<close>; an absent (or null) field is
  \<open>None\<close>.  The numbers are modelled as integers.
\<close>

record pagination =
  take_pg :: "int option"
  skip_pg :: "int option"

text \<open>
  The arguments of the client's \<^verbatim>\<open>findMany\<close>: the filter, the window, and everything
  else (\<^verbatim>\<open>orderBy\<close>, \<^verbatim>\<open>select\<close>, ...) in \<open>rest_q\<close>, which \<open>paginate\<close> only copies.
\<close>

record ('w, 'o) find_many_args =
  where_q :: "'w option"
  take_q :: "int option"
  skip_q :: "int option"
  rest_q :: "'o"

text \<open>
  The argument of \<open>paginate\<close>,
  \<^verbatim>\<open>args?: Args<T, "findMany"> & { pagination?: Pagination }\<close>, after the destructuring
  \<^verbatim>\<open>const { pagination, ...operationArgs } = (args ?? {})\<close>.  A call without argument is
  \<open>None\<close>, and \<open>no_args\<close> is the \<^verbatim>\<open>{}\<close> that takes its place.
\<close>

record ('w, 'o) paginate_args =
  pagination :: "pagination option"
  operationArgs :: "('w, 'o) find_many_args"

definition no_args :: "'o \<Rightarrow> ('w, 'o) paginate_args" where
  "no_args empty_rest =
     \<lparr>pagination = None,
      operationArgs = \<lparr>where_q = None, take_q = None, skip_q = None, rest_q = empty_rest\<rparr>\<rparr>"

text \<open>\<^verbatim>\<open>args?.pagination?.take\<close> and \<^verbatim>\<open>args?.pagination?.skip\<close>.\<close>

definition pagination_take :: "('w, 'o) paginate_args option \<Rightarrow> int option" where
  "pagination_take args =
     (case args of None \<Rightarrow> None
      | Some a \<Rightarrow> (case pagination a of None \<Rightarrow> None | Some p \<Rightarrow> take_pg p))"

definition pagination_skip :: "('w, 'o) paginate_args option \<Rightarrow> int option" where
  "pagination_skip args =
     (case args of None \<Rightarrow> None
      | Some a \<Rightarrow> (case pagination a of None \<Rightarrow> None | Some p \<Rightarrow> skip_pg p))"

text \<open>
  \<open>paginate\<close> of \<^verbatim>\<open>src/unnamed/part_000\<close> (and, word for word, of \<^verbatim>\<open>part_001\<close>):
  \<^verbatim>\<open>const take = args?.pagination?.take ?? operationArgs?.take ?? 10;
  const skip = args?.pagination?.skip ?? operationArgs?.skip ?? 0;\<close>
  then \<^verbatim>\<open>findMany({ ...operationArgs, skip, take })\<close>, whose argument is
  \<open>paginate_query\<close>.
\<close>

definition paginate_take :: "'o \<Rightarrow> ('w, 'o) paginate_args option \<Rightarrow> int" where
  "paginate_take empty_rest args =
     (let operationArgs = operationArgs (case args of None \<Rightarrow> no_args empty_rest | Some a \<Rightarrow> a)
      in coalesce (nullish (pagination_take args) (take_q operationArgs)) 10)"

definition paginate_skip :: "'o \<Rightarrow> ('w, 'o) paginate_args option \<Rightarrow> int" where
  "paginate_skip empty_rest args =
     (let operationArgs = operationArgs (case args of None \<Rightarrow> no_args empty_rest | Some a \<Rightarrow> a)
      in coalesce (nullish (pagination_skip args) (skip_q operationArgs)) 0)"

definition paginate_query :: "'o \<Rightarrow> ('w, 'o) paginate_args option \<Rightarrow> ('w, 'o) find_many_args" where
  "paginate_query empty_rest args =
     (let operationArgs = operationArgs (case args of None \<Rightarrow> no_args empty_rest | Some a \<Rightarrow> a)
      in operationArgs\<lparr>skip_q := Some (paginate_skip empty_rest args),
                       take_q := Some (paginate_take empty_rest args)\<rparr>)"

text \<open>
  \<open>paginate\<close> of \<^verbatim>\<open>src/src/index.ts\<close>:
  \<^verbatim>\<open>const take = args?.pagination?.take ?? 10;
  const skip = args?.pagination?.skip ?? 0;\<close>
  with the same \<^verbatim>\<open>findMany({ ...operationArgs, skip, take })\<close>.
\<close>

definition paginate_take_index :: "('w, 'o) paginate_args option \<Rightarrow> int" where
  "paginate_take_index args = coalesce (pagination_take args) 10"

definition paginate_skip_index :: "('w, 'o) paginate_args option \<Rightarrow> int" where
  "paginate_skip_index args = coalesce (pagination_skip args) 0"

definition paginate_query_index :: "'o \<Rightarrow> ('w, 'o) paginate_args option \<Rightarrow> ('w, 'o) find_many_args" where
  "paginate_query_index empty_rest args =
     (let operationArgs = operationArgs (case args of None \<Rightarrow> no_args empty_rest | Some a \<Rightarrow> a)
      in operationArgs\<lparr>skip_q := Some (paginate_skip_index args),
                       take_q := Some (paginate_take_index args)\<rparr>)"

text \<open>
  The two queries run under \<^verbatim>\<open>Promise.all\<close>: both are issued, and the call fails when
  one of them fails.  When both fail it fails with the failure of the one that settles
  first, which the code does not decide: \<open>first\<close> says which one that is.  The client's
  \<open>findMany\<close> and \<open>count\<close> are parameters.
\<close>

datatype first_settled = FindManyFirst | CountFirst

fun promise_all2 :: "first_settled \<Rightarrow> thrown + 'a \<Rightarrow> thrown + 'b \<Rightarrow> thrown + 'a \<times> 'b" where
  "promise_all2 first (Inr a) (Inr b) = Inr (a, b)"
| "promise_all2 first (Inl e) (Inr b) = Inl e"
| "promise_all2 first (Inr a) (Inl e) = Inl e"
| "promise_all2 FindManyFirst (Inl e) (Inl e') = Inl e"
| "promise_all2 CountFirst (Inl e) (Inl e') = Inl e'"

definition paginate ::
  "first_settled \<Rightarrow> (('w, 'o) find_many_args \<Rightarrow> thrown + 'r list) \<Rightarrow>
     ('w option \<Rightarrow> thrown + nat) \<Rightarrow> 'o \<Rightarrow> ('w, 'o) paginate_args option \<Rightarrow>
     thrown + 'r list \<times> nat" where
  "paginate first findMany count_q empty_rest args =
     (let operationArgs = operationArgs (case args of None \<Rightarrow> no_args empty_rest | Some a \<Rightarrow> a)
      in promise_all2 first (findMany (paginate_query empty_rest args))
           (count_q (where_q operationArgs)))"

definition paginate_index ::
  "first_settled \<Rightarrow> (('w, 'o) find_many_args \<Rightarrow> thrown + 'r list) \<Rightarrow>
     ('w option \<Rightarrow> thrown + nat) \<Rightarrow> 'o \<Rightarrow> ('w, 'o) paginate_args option \<Rightarrow>
     thrown + 'r list \<times> nat" where
  "paginate_index first findMany count_q empty_rest args =
     (let operationArgs = operationArgs (case args of None \<Rightarrow> no_args empty_rest | Some a \<Rightarrow> a)
      in promise_all2 first (findMany (paginate_query_index empty_rest args))
           (count_q (where_q operationArgs)))"

section \<open>Properties\<close>

subsection \<open>Not-found-tolerant mutations\<close>

text \<open>
  Claim C8.  For \<open>updateIgnoreOnNotFound\<close> and \<open>deleteIgnoreOnNotFound\<close>: the result is
  null exactly when the underlying mutation failed with code P2025; a failure with any
  other code (or with no code) is rethrown unchanged; a successful mutation returns the
  mutated record.
\<close>

theorem ignore_on_not_found:
  fixes update :: "'a \<Rightarrow> thrown + 'r" and delete :: "'b \<Rightarrow> thrown + 's"
  shows "(updateIgnoreOnNotFound update a = Inr None \<longleftrightarrow>
            (\<exists>e. update a = Inl e \<and> code e = Some ''P2025''))
       \<and> (\<forall>e. update a = Inl e \<and> code e \<noteq> Some ''P2025'' \<longrightarrow>
            updateIgnoreOnNotFound update a = Inl e)
       \<and> (\<forall>r. update a = Inr r \<longrightarrow> updateIgnoreOnNotFound update a = Inr (Some r))
       \<and> (deleteIgnoreOnNotFound delete b = Inr None \<longleftrightarrow>
            (\<exists>e. delete b = Inl e \<and> code e = Some ''P2025''))
       \<and> (\<forall>e. delete b = Inl e \<and> code e \<noteq> Some ''P2025'' \<longrightarrow>
            deleteIgnoreOnNotFound delete b = Inl e)
       \<and> (\<forall>r. delete b = Inr r \<longrightarrow> deleteIgnoreOnNotFound delete b = Inr (Some r))"
  by (auto simp: updateIgnoreOnNotFound_def deleteIgnoreOnNotFound_def split: sum.splits)

theorem ignore_on_not_found_witness:
  "updateIgnoreOnNotFound (\<lambda>k::nat. if k = 1 then Inr ''row1'' else Inl (Coded ''P2025'' ''not found'')) 2
     = Inr None
   \<and> updateIgnoreOnNotFound (\<lambda>k::nat. if k = 1 then Inr ''row1'' else Inl (Coded ''P2025'' ''not found'')) 1
     = Inr (Some ''row1'')
   \<and> deleteIgnoreOnNotFound (\<lambda>k::nat. (Inl (Coded ''P2003'' ''foreign key'') :: thrown + string)) 7
     = Inl (Coded ''P2003'' ''foreign key'')
   \<and> deleteIgnoreOnNotFound (\<lambda>k::nat. (Inl Nullish :: thrown + string)) 7 = Inl Nullish"
  using ignore_on_not_found
    [of "\<lambda>k::nat. if k = 1 then Inr ''row1'' else Inl (Coded ''P2025'' ''not found'')" 2
        "\<lambda>k::nat. (Inl (Coded ''P2003'' ''foreign key'') :: thrown + string)" 7]
    ignore_on_not_found
    [of "\<lambda>k::nat. if k = 1 then Inr ''row1'' else Inl (Coded ''P2025'' ''not found'')" 1
        "\<lambda>k::nat. (Inl Nullish :: thrown + string)" 7]
  by simp

subsection \<open>Transactions\<close>

lemma state_of_settle:
  "state_of (settle p f w) q = (if q = p \<and> p < length (promises w) then f (state_of w p) else state_of w q)"
  by (simp add: state_of_def settle_def)

lemma settle_fixed:
  "f (state_of w p) = state_of w p \<Longrightarrow> settle p f w = w"
  by (cases "p < length (promises w)") (simp_all add: state_of_def settle_def)

lemma begin_start_supported:
  "supports_transactions prisma \<Longrightarrow>
   begin_start prisma w =
     (Inr \<lparr>txClient = length (promises w), txPromise = Suc (length (promises w)),
            tx = Suc (Suc (length (promises w)))\<rparr>,
      w\<lparr>promises := promises w @ [Pending, Pending, Pending], opened := Suc (opened w)\<rparr>)"
  by (simp add: begin_start_def new_promise_def open_transaction_def)

lemma begin_start_unsupported:
  "\<not> supports_transactions prisma \<Longrightarrow>
   begin_start prisma w =
     (Inl (Uncoded ''Transactions are not supported by this client''),
      w\<lparr>promises := promises w @ [Pending, Pending]\<rparr>)"
  by (simp add: begin_start_def new_promise_def open_transaction_def)

lemma dollar_begin_handle:
  assumes "dollar_begin prisma started w0 = (Some (Inr h), w)"
  shows "supports_transactions prisma
       \<and> locals h = \<lparr>txClient = length (promises w0), txPromise = Suc (length (promises w0)),
            tx = Suc (Suc (length (promises w0)))\<rparr>
       \<and> started = Some (target h)
       \<and> w = w0\<lparr>promises := promises w0 @ [Fulfilled (target h), Pending, Pending],
                opened := Suc (opened w0)\<rparr>"
proof (cases "supports_transactions prisma")
  case False
  with assms show ?thesis
    by (simp add: dollar_begin_def begin_start_unsupported)
next
  case True
  with assms show ?thesis
    by (auto simp: dollar_begin_def begin_start_supported callback_def setTxClient_def
        settle_def begin_resume_def state_of_def nth_append
        split: option.splits promise.splits)
qed

lemma decide_world:
  "snd (decide h d w) = settle (txPromise (locals h))
     (case d of Commit \<Rightarrow> resolve_promise Undefined | Rollback \<Rightarrow> reject_promise ROLLBACK) w"
  by (cases d) (simp_all add: dollar_commit_def dollar_rollback_def commit_def rollback_def)

lemma decide_settled:
  "state_of w (txPromise (locals h)) \<noteq> Pending \<Longrightarrow> snd (decide h d w) = w"
  unfolding decide_world
  by (rule settle_fixed) (cases "state_of w (txPromise (locals h))"; cases d; simp)

lemma decide_all_settled:
  "state_of w (txPromise (locals h)) \<noteq> Pending \<Longrightarrow> snd (decide_all h ds w) = w"
proof (induction ds)
  case Nil
  then show ?case by simp
next
  case (Cons d ds)
  have "snd (decide h d w) = w" using Cons.prems by (rule decide_settled)
  then show ?case using Cons
    by (simp add: split_beta Let_def)
qed

lemma decide_all_returns:
  "fst (decide_all h ds w) = replicate (length ds) (tx (locals h))"
proof (induction ds arbitrary: w)
  case Nil
  then show ?case by simp
next
  case (Cons d ds)
  have "fst (decide h d w) = tx (locals h)"
    by (cases d) (simp_all add: dollar_commit_def dollar_rollback_def)
  then show ?case using Cons
    by (simp add: split_beta Let_def)
qed


lemma callback_result_rollback:
  assumes "state_of w (txPromise fr) = Pending" and "txPromise fr < length (promises w)"
  shows "state_of (rollback fr w) (txPromise fr) = Rejected ROLLBACK"
    and "callback_result fr (rollback fr w) = Fulfilled Undefined"
  using assms by (simp_all add: rollback_def callback_result_def state_of_settle on_rejected_def)

lemma handle_decision_pending:
  assumes "dollar_begin prisma started w0 = (Some (Inr h), w)"
  shows "state_of w (txPromise (locals h)) = Pending \<and> txPromise (locals h) < length (promises w)"
  using dollar_begin_handle [OF assms] by (simp add: state_of_def nth_append)

text \<open>
  Claim C1.  For every handle \<open>h\<close> that \<^verbatim>\<open>$begin\<close> produced: \<^verbatim>\<open>$rollback\<close> rejects the
  decision promise with the sentinel; the catch of the callback turns that into a
  fulfilled promise, so the underlying transaction scope completes normally and the
  promise the caller holds is never rejected with the sentinel (it is fulfilled, or
  rejected with a failure of the underlying client's own).  A decision promise rejected
  with any other value makes the callback's promise, and with it the transaction's,
  reject with that same value.  The handler returns normally for the sentinel and for
  nothing else.
\<close>

theorem rollback_sentinel_caught:
  assumes "dollar_begin prisma started w0 = (Some (Inr h), w)"
  shows "state_of (snd (dollar_rollback h w)) (txPromise (locals h)) = Rejected ROLLBACK
       \<and> callback_result (locals h) (snd (dollar_rollback h w)) = Fulfilled Undefined
       \<and> completion h (snd (dollar_rollback h w)) None = Fulfilled Undefined
       \<and> (\<forall>failure. failure \<noteq> Some ROLLBACK \<longrightarrow>
            completion h (snd (dollar_rollback h w)) failure \<noteq> Rejected ROLLBACK)
       \<and> (\<forall>w' e. state_of w' (txPromise (locals h)) = Rejected e \<and> e \<noteq> ROLLBACK \<longrightarrow>
            callback_result (locals h) w' = Rejected e \<and>
            (\<forall>failure. completion h w' failure = Rejected e))
       \<and> (\<forall>e. (\<exists>v. on_rejected e = Inr v) \<longleftrightarrow> e = ROLLBACK)"
proof -
  note p = handle_decision_pending [OF assms]
  have r: "state_of (snd (dollar_rollback h w)) (txPromise (locals h)) = Rejected ROLLBACK"
    using p by (simp add: dollar_rollback_def callback_result_rollback)
  have c: "callback_result (locals h) (snd (dollar_rollback h w)) = Fulfilled Undefined"
    using p by (simp add: dollar_rollback_def callback_result_rollback)
  have n: "completion h (snd (dollar_rollback h w)) failure \<noteq> Rejected ROLLBACK"
    if "failure \<noteq> Some ROLLBACK" for failure
    using that c by (cases failure) (simp_all add: completion_def)
  have o: "callback_result (locals h) w' = Rejected e \<and>
           (\<forall>failure. completion h w' failure = Rejected e)"
    if "state_of w' (txPromise (locals h)) = Rejected e" and "e \<noteq> ROLLBACK" for w' e
    using that by (simp add: callback_result_def completion_def on_rejected_def)
  have x: "(\<exists>v. on_rejected e = Inr v) \<longleftrightarrow> e = ROLLBACK" for e
    by (simp add: on_rejected_def)
  show ?thesis
    using r c n o x by (simp add: completion_def)
qed

theorem rollback_sentinel_caught_witness:
  "dollar_begin \<lparr>dollar_transaction = Some Function\<rparr> (Some (TxClient 1)) \<lparr>promises = [], opened = 0\<rparr>
     = (Some (Inr \<lparr>target = TxClient 1, locals = \<lparr>txClient = 0, txPromise = 1, tx = 2\<rparr>\<rparr>),
        \<lparr>promises = [Fulfilled (TxClient 1), Pending, Pending], opened = 1\<rparr>)
   \<and> callback_result \<lparr>txClient = 0, txPromise = 1, tx = 2\<rparr>
        (snd (dollar_rollback \<lparr>target = TxClient 1, locals = \<lparr>txClient = 0, txPromise = 1, tx = 2\<rparr>\<rparr>
           \<lparr>promises = [Fulfilled (TxClient 1), Pending, Pending], opened = 1\<rparr>))
     = Fulfilled Undefined
   \<and> completion \<lparr>target = TxClient 1, locals = \<lparr>txClient = 0, txPromise = 1, tx = 2\<rparr>\<rparr>
        (snd (dollar_rollback \<lparr>target = TxClient 1, locals = \<lparr>txClient = 0, txPromise = 1, tx = 2\<rparr>\<rparr>
           \<lparr>promises = [Fulfilled (TxClient 1), Pending, Pending], opened = 1\<rparr>))
        (Some (Coded ''P2034'' ''write conflict''))
     \<noteq> Rejected ROLLBACK
   \<and> callback_result \<lparr>txClient = 0, txPromise = 1, tx = 2\<rparr>
        \<lparr>promises = [Fulfilled (TxClient 1), Rejected (Uncoded ''boom''), Pending], opened = 1\<rparr>
     = Rejected (Uncoded ''boom'')"
proof -
  have b: "dollar_begin \<lparr>dollar_transaction = Some Function\<rparr> (Some (TxClient 1))
             \<lparr>promises = [], opened = 0\<rparr>
     = (Some (Inr \<lparr>target = TxClient 1, locals = \<lparr>txClient = 0, txPromise = 1, tx = 2\<rparr>\<rparr>),
        \<lparr>promises = [Fulfilled (TxClient 1), Pending, Pending], opened = 1\<rparr>)"
    by (simp add: dollar_begin_def begin_start_def new_promise_def open_transaction_def
        supports_transactions_def callback_def setTxClient_def settle_def begin_resume_def
        state_of_def)
  have s: "state_of \<lparr>promises = [Fulfilled (TxClient 1), Rejected (Uncoded ''boom''), Pending],
             opened = 1\<rparr> 1 = Rejected (Uncoded ''boom'')"
    by (simp add: state_of_def)
  show ?thesis
    using b s rollback_sentinel_caught [OF b] by simp
qed

text \<open>
  Claim C10.  For every handle \<open>h\<close> that \<^verbatim>\<open>$begin\<close> produced: the first \<^verbatim>\<open>$commit\<close> or
  \<^verbatim>\<open>$rollback\<close> settles the decision promise (fulfilled for a commit, rejected with the
  sentinel for a rollback); every later call leaves the whole state as the first call
  left it; once the decision promise is settled no sequence of calls changes anything;
  and every call returns the same promise \<open>tx\<close>, the one the call of the underlying
  \<^verbatim>\<open>$transaction\<close> returned.
\<close>

theorem first_decision_is_final:
  assumes "dollar_begin prisma started w0 = (Some (Inr h), w)"
  shows "snd (decide_all h (d # ds) w) = snd (decide h d w)
       \<and> state_of (snd (decide h d w)) (txPromise (locals h))
           = (case d of Commit \<Rightarrow> Fulfilled Undefined | Rollback \<Rightarrow> Rejected ROLLBACK)
       \<and> (\<forall>w'. state_of w' (txPromise (locals h)) \<noteq> Pending \<longrightarrow> snd (decide_all h ds w') = w')
       \<and> (\<forall>w'. fst (decide_all h ds w') = replicate (length ds) (tx (locals h)))
       \<and> tx (locals h) = fst (open_transaction (snd (new_promise (snd (new_promise w0)))))"
proof -
  note p = handle_decision_pending [OF assms]
  have s: "state_of (snd (decide h d w)) (txPromise (locals h))
           = (case d of Commit \<Rightarrow> Fulfilled Undefined | Rollback \<Rightarrow> Rejected ROLLBACK)"
    using p by (cases d)
      (simp_all add: dollar_commit_def dollar_rollback_def commit_def rollback_def state_of_settle)
  then have "state_of (snd (decide h d w)) (txPromise (locals h)) \<noteq> Pending"
    by (cases d) simp_all
  then have "snd (decide_all h ds (snd (decide h d w))) = snd (decide h d w)"
    by (rule decide_all_settled)
  then have a: "snd (decide_all h (d # ds) w) = snd (decide h d w)"
    by (simp add: split_beta Let_def)
  have t: "tx (locals h) = fst (open_transaction (snd (new_promise (snd (new_promise w0)))))"
    using dollar_begin_handle [OF assms] by (simp add: open_transaction_def new_promise_def)
  show ?thesis
    using a s t by (simp add: decide_all_settled decide_all_returns)
qed

theorem first_decision_is_final_witness:
  "dollar_begin \<lparr>dollar_transaction = Some Function\<rparr> (Some (TxClient 7)) \<lparr>promises = [], opened = 0\<rparr>
     = (Some (Inr \<lparr>target = TxClient 7, locals = \<lparr>txClient = 0, txPromise = 1, tx = 2\<rparr>\<rparr>),
        \<lparr>promises = [Fulfilled (TxClient 7), Pending, Pending], opened = 1\<rparr>)
   \<and> decide_all \<lparr>target = TxClient 7, locals = \<lparr>txClient = 0, txPromise = 1, tx = 2\<rparr>\<rparr>
        [Commit, Rollback, Commit]
        \<lparr>promises = [Fulfilled (TxClient 7), Pending, Pending], opened = 1\<rparr>
     = ([2, 2, 2], \<lparr>promises = [Fulfilled (TxClient 7), Fulfilled Undefined, Pending], opened = 1\<rparr>)
   \<and> decide_all \<lparr>target = TxClient 7, locals = \<lparr>txClient = 0, txPromise = 1, tx = 2\<rparr>\<rparr>
        [Rollback, Commit]
        \<lparr>promises = [Fulfilled (TxClient 7), Pending, Pending], opened = 1\<rparr>
     = ([2, 2], \<lparr>promises = [Fulfilled (TxClient 7), Rejected ROLLBACK, Pending], opened = 1\<rparr>)"
proof -
  have b: "dollar_begin \<lparr>dollar_transaction = Some Function\<rparr> (Some (TxClient 7))
             \<lparr>promises = [], opened = 0\<rparr>
     = (Some (Inr \<lparr>target = TxClient 7, locals = \<lparr>txClient = 0, txPromise = 1, tx = 2\<rparr>\<rparr>),
        \<lparr>promises = [Fulfilled (TxClient 7), Pending, Pending], opened = 1\<rparr>)"
    by (simp add: dollar_begin_def begin_start_def new_promise_def open_transaction_def
        supports_transactions_def callback_def setTxClient_def settle_def begin_resume_def
        state_of_def)
  have c: "decide_all \<lparr>target = TxClient 7, locals = \<lparr>txClient = 0, txPromise = 1, tx = 2\<rparr>\<rparr>
        [Commit, Rollback, Commit]
        \<lparr>promises = [Fulfilled (TxClient 7), Pending, Pending], opened = 1\<rparr>
     = ([2, 2, 2], \<lparr>promises = [Fulfilled (TxClient 7), Fulfilled Undefined, Pending], opened = 1\<rparr>)"
    by (simp add: dollar_commit_def dollar_rollback_def commit_def rollback_def settle_def)
  have r: "decide_all \<lparr>target = TxClient 7, locals = \<lparr>txClient = 0, txPromise = 1, tx = 2\<rparr>\<rparr>
        [Rollback, Commit]
        \<lparr>promises = [Fulfilled (TxClient 7), Pending, Pending], opened = 1\<rparr>
     = ([2, 2], \<lparr>promises = [Fulfilled (TxClient 7), Rejected ROLLBACK, Pending], opened = 1\<rparr>)"
    by (simp add: dollar_commit_def dollar_rollback_def commit_def rollback_def settle_def)
  show ?thesis
    using b c r first_decision_is_final [OF b, of Commit "[Rollback, Commit]"]
    by simp
qed

text \<open>
  Claim C4, as amended.  When the client has no function \<^verbatim>\<open>$transaction\<close>, \<^verbatim>\<open>$begin\<close>
  fails with the error "Transactions are not supported by this client" without
  waiting for anything and without opening a transaction; the two coordination
  promises have been created by then (the test comes after them) and stay pending.
\<close>

theorem begin_unsupported:
  assumes "\<not> supports_transactions prisma"
  shows "dollar_begin prisma started w =
     (Some (Inl (Uncoded ''Transactions are not supported by this client'')),
      w\<lparr>promises := promises w @ [Pending, Pending]\<rparr>)"
  using assms by (simp add: dollar_begin_def begin_start_unsupported)

theorem begin_unsupported_witness:
  "\<not> supports_transactions \<lparr>dollar_transaction = Some NotFunction\<rparr>
   \<and> dollar_begin \<lparr>dollar_transaction = Some NotFunction\<rparr> (Some (TxClient 3))
        \<lparr>promises = [Fulfilled Undefined], opened = 4\<rparr>
     = (Some (Inl (Uncoded ''Transactions are not supported by this client'')),
        \<lparr>promises = [Fulfilled Undefined, Pending, Pending], opened = 4\<rparr>)"
proof -
  have n: "\<not> supports_transactions \<lparr>dollar_transaction = Some NotFunction\<rparr>"
    by (simp add: supports_transactions_def)
  show ?thesis
    using n begin_unsupported [OF n, of "Some (TxClient 3)"
        "\<lparr>promises = [Fulfilled Undefined], opened = 4\<rparr>"]
    by simp
qed

text \<open>
  Claim C4 as stated fails: on a client without \<^verbatim>\<open>$transaction\<close>, and starting with no
  promise at all, the failing call leaves two promises behind.
\<close>

theorem begin_unsupported_creates_promises:
  "fst (dollar_begin \<lparr>dollar_transaction = None\<rparr> None \<lparr>promises = [], opened = 0\<rparr>)
     = Some (Inl (Uncoded ''Transactions are not supported by this client''))
   \<and> promises (snd (dollar_begin \<lparr>dollar_transaction = None\<rparr> None \<lparr>promises = [], opened = 0\<rparr>))
     = [Pending, Pending]
   \<and> promises (snd (dollar_begin \<lparr>dollar_transaction = None\<rparr> None \<lparr>promises = [], opened = 0\<rparr>))
     \<noteq> promises \<lparr>promises = [], opened = 0\<rparr>"
  by (simp add: dollar_begin_def begin_start_def new_promise_def supports_transactions_def)

subsection \<open>Retrying transactions\<close>

lemma backOff_from_Inr:
  "request k = Inr v \<Longrightarrow> backOff_from request options k = (Inr v, Suc k)"
  by (subst backOff_from.simps) simp

lemma backOff_from_stop:
  "request k = Inl e \<Longrightarrow> \<not> (retry options e \<and> Suc k < numOfAttempts options) \<Longrightarrow>
   backOff_from request options k = (Inl e, Suc k)"
  by (subst backOff_from.simps) (cases "retry options e"; simp)

lemma backOff_from_again:
  "request k = Inl e \<Longrightarrow> retry options e \<and> Suc k < numOfAttempts options \<Longrightarrow>
   backOff_from request options k = backOff_from request options (Suc k)"
  by (subst backOff_from.simps) simp

lemma backOff_from_cases:
  obtains (success) v where "request k = Inr v"
      "backOff_from request options k = (Inr v, Suc k)"
  | (stop) e where "request k = Inl e" "\<not> (retry options e \<and> Suc k < numOfAttempts options)"
      "backOff_from request options k = (Inl e, Suc k)"
  | (again) e where "request k = Inl e" "retry options e \<and> Suc k < numOfAttempts options"
      "backOff_from request options k = backOff_from request options (Suc k)"
proof (cases "request k")
  case (Inr v)
  show ?thesis
    using Inr backOff_from_Inr [of request k v options, OF Inr] by (rule success)
next
  case (Inl e)
  show ?thesis
  proof (cases "retry options e \<and> Suc k < numOfAttempts options")
    case True
    show ?thesis
      using Inl True backOff_from_again [of request k e options, OF Inl True] by (rule again)
  next
    case False
    show ?thesis
      using Inl False backOff_from_stop [of request k e options, OF Inl False] by (rule stop)
  qed
qed

lemma backOff_from_gt: "k0 < snd (backOff_from request options k0)"
proof (induction request options k0 rule: backOff_from.induct)
  case (1 request options k)
  show ?case
  proof (cases rule: backOff_from_cases [of request k options])
    case (again e)
    then show ?thesis using "1.IH" [of e] by simp
  qed simp_all
qed

lemma backOff_from_last:
  "fst (backOff_from request options k0) = request (snd (backOff_from request options k0) - 1)"
proof (induction request options k0 rule: backOff_from.induct)
  case (1 request options k)
  show ?case
  proof (cases rule: backOff_from_cases [of request k options])
    case (again e)
    then show ?thesis using "1.IH" [of e] by simp
  qed simp_all
qed

lemma backOff_from_failed_before:
  "k0 \<le> k \<Longrightarrow> Suc k < snd (backOff_from request options k0) \<Longrightarrow> \<exists>e. request k = Inl e"
proof (induction request options k0 rule: backOff_from.induct)
  case (1 request options k0)
  show ?case
  proof (cases rule: backOff_from_cases [of request k0 options])
    case (again e)
    show ?thesis
    proof (cases "k = k0")
      case True
      then show ?thesis using again by simp
    next
      case False
      then have "Suc k0 \<le> k" using "1.prems" by simp
      then show ?thesis using "1.IH" [of e] "1.prems" again by simp
    qed
  next
    case (success v)
    then show ?thesis using "1.prems" by simp
  next
    case (stop e)
    then show ?thesis using "1.prems" by simp
  qed
qed

lemma backOff_from_retried:
  "k0 \<le> k \<Longrightarrow> k < snd (backOff_from request options k0) \<Longrightarrow> request k = Inl e \<Longrightarrow>
   Suc k < snd (backOff_from request options k0)
     \<longleftrightarrow> retry options e \<and> Suc k < numOfAttempts options"
proof (induction request options k0 rule: backOff_from.induct)
  case (1 request options k0)
  show ?case
  proof (cases rule: backOff_from_cases [of request k0 options])
    case (again d)
    show ?thesis
    proof (cases "k = k0")
      case True
      then have "d = e" using again "1.prems" by simp
      then show ?thesis
        using again True backOff_from_gt [of "Suc k0" request options] by simp
    next
      case False
      then have "Suc k0 \<le> k" using "1.prems" by simp
      then show ?thesis using "1.IH" [of d] "1.prems" again by simp
    qed
  next
    case (success v)
    then have "k = k0" using "1.prems" by simp
    then show ?thesis using success "1.prems" by simp
  next
    case (stop d)
    then have "k = k0" using "1.prems" by simp
    then show ?thesis using stop "1.prems" by simp
  qed
qed

text \<open>
  What the adapter runs, for options whose keys \<^verbatim>\<open>retry\<close> and \<^verbatim>\<open>numOfAttempts\<close> are
  absent or hold a value.
\<close>

lemma RetryTransactions_run:
  assumes "options = None \<and> c = default_retry \<and> limit = n
         \<or> (\<exists>opts. options = Some opts
              \<and> (retry_opt opts = Absent \<and> c = default_retry \<or> retry_opt opts = Has c)
              \<and> (numOfAttempts_opt opts = Absent \<and> limit = n
                    \<or> numOfAttempts_opt opts = Has limit))"
  shows "RetryTransactions options n transaction =
           Ran (fst (backOff_from transaction \<lparr>retry = c, numOfAttempts = limit\<rparr> 0))
               (snd (backOff_from transaction \<lparr>retry = c, numOfAttempts = limit\<rparr> 0))"
  using assms
  by (auto simp: RetryTransactions_def backOff_def merged_options_def split_beta)

lemma RetryTransactions_undefined:
  "retry_opt opts = IsUndefined \<or> numOfAttempts_opt opts = IsUndefined \<Longrightarrow>
   RetryTransactions (Some opts) n transaction = NotSpecified"
  by (auto simp: RetryTransactions_def backOff_def merged_options_def
      split: key.splits option.splits)

text \<open>
  Claim C7, as amended.  For every transaction run through the retry adapter with
  options whose keys \<^verbatim>\<open>retry\<close> and \<^verbatim>\<open>numOfAttempts\<close> are absent or hold a value: the
  classifier in force \<open>c\<close> is the caller's \<^verbatim>\<open>retry\<close> when the options have one and
  the default classifier otherwise, and the limit in force is the caller's
  \<^verbatim>\<open>numOfAttempts\<close> when the options have one and the primitive's default otherwise.
  A failed attempt is followed by another attempt if and only if \<open>c\<close> marks the
  failure retry-eligible and the limit is not reached; every attempt before the last
  one failed, and the result is what the last attempt returned, unchanged.  A first
  failure that \<open>c\<close> does not mark is the result, after one attempt.  The default
  classifier marks exactly the failures whose code is P2034.
\<close>

theorem retry_while_eligible_and_attempts_left:
  fixes transaction :: "nat \<Rightarrow> thrown + 'a"
  assumes "options = None \<and> c = default_retry \<and> limit = n
         \<or> (\<exists>opts. options = Some opts
              \<and> (retry_opt opts = Absent \<and> c = default_retry \<or> retry_opt opts = Has c)
              \<and> (numOfAttempts_opt opts = Absent \<and> limit = n
                    \<or> numOfAttempts_opt opts = Has limit))"
  shows "(\<exists>result attempts.
            RetryTransactions options n transaction = Ran result attempts
            \<and> 0 < attempts
            \<and> result = transaction (attempts - 1)
            \<and> (\<forall>k e. k < attempts \<and> transaction k = Inl e \<longrightarrow>
                  (Suc k < attempts \<longleftrightarrow> c e \<and> Suc k < limit))
            \<and> (\<forall>k. Suc k < attempts \<longrightarrow> (\<exists>e. transaction k = Inl e))
            \<and> (\<forall>e. transaction 0 = Inl e \<and> \<not> c e \<longrightarrow> result = Inl e \<and> attempts = 1))
       \<and> (\<forall>e. default_retry e \<longleftrightarrow> code e = Some ''P2034'')"
proof -
  let ?opts = "\<lparr>retry = c, numOfAttempts = limit\<rparr>"
  let ?run = "backOff_from transaction ?opts 0"
  have r: "RetryTransactions options n transaction = Ran (fst ?run) (snd ?run)"
    using assms by (rule RetryTransactions_run)
  have g: "0 < snd ?run"
    by (rule backOff_from_gt)
  have l: "fst ?run = transaction (snd ?run - 1)"
    by (rule backOff_from_last)
  have a: "\<forall>k e. k < snd ?run \<and> transaction k = Inl e \<longrightarrow>
             (Suc k < snd ?run \<longleftrightarrow> c e \<and> Suc k < limit)"
    using backOff_from_retried [of 0 _ transaction ?opts] by simp
  have b: "\<forall>k. Suc k < snd ?run \<longrightarrow> (\<exists>e. transaction k = Inl e)"
    using backOff_from_failed_before [of 0 _ transaction ?opts] by simp
  have f: "\<forall>e. transaction 0 = Inl e \<and> \<not> c e \<longrightarrow> fst ?run = Inl e \<and> snd ?run = 1"
    using backOff_from_stop [of transaction 0 _ ?opts] by simp
  have d: "\<forall>e. default_retry e \<longleftrightarrow> code e = Some ''P2034''"
    by (simp add: default_retry_def)
  have "\<exists>result attempts.
            RetryTransactions options n transaction = Ran result attempts
            \<and> 0 < attempts
            \<and> result = transaction (attempts - 1)
            \<and> (\<forall>k e. k < attempts \<and> transaction k = Inl e \<longrightarrow>
                  (Suc k < attempts \<longleftrightarrow> c e \<and> Suc k < limit))
            \<and> (\<forall>k. Suc k < attempts \<longrightarrow> (\<exists>e. transaction k = Inl e))
            \<and> (\<forall>e. transaction 0 = Inl e \<and> \<not> c e \<longrightarrow> result = Inl e \<and> attempts = 1)"
    by (intro exI conjI) (rule r g l a b f)+
  then show ?thesis
    using d by (rule conjI)
qed

theorem retry_while_eligible_and_attempts_left_witness:
  "RetryTransactions None 10
     (\<lambda>k::nat. if k < 2 then Inl (Coded ''P2034'' ''write conflict'') else Inr (42::nat))
     = Ran (Inr 42) 3
   \<and> default_retry (Coded ''P2034'' ''write conflict'')
   \<and> RetryTransactions
        (Some \<lparr>retry_opt = Has (\<lambda>e. code e = Some ''P2002''), numOfAttempts_opt = Has 5\<rparr>) 10
        (\<lambda>k::nat. if k < 2 then Inl (Coded ''P2002'' ''unique constraint'')
                  else (Inl (Coded ''P2034'' ''write conflict'') :: thrown + nat))
     = Ran (Inl (Coded ''P2034'' ''write conflict'')) 3"
proof -
  let ?t = "\<lambda>k::nat. if k < 2 then Inl (Coded ''P2034'' ''write conflict'') else Inr (42::nat)"
  let ?u = "\<lambda>k::nat. if k < 2 then Inl (Coded ''P2002'' ''unique constraint'')
                  else (Inl (Coded ''P2034'' ''write conflict'') :: thrown + nat)"
  let ?o = "Some \<lparr>retry_opt = Has (\<lambda>e. code e = Some ''P2002''), numOfAttempts_opt = Has 5\<rparr>"
  have h1: "(None :: partial_options option) = None \<and> default_retry = default_retry
              \<and> (10::nat) = 10
         \<or> (\<exists>opts. (None :: partial_options option) = Some opts
              \<and> (retry_opt opts = Absent \<and> default_retry = default_retry
                    \<or> retry_opt opts = Has default_retry)
              \<and> (numOfAttempts_opt opts = Absent \<and> (10::nat) = 10
                    \<or> numOfAttempts_opt opts = Has 10))"
    by simp
  have h2: "?o = None \<and> (\<lambda>e. code e = Some ''P2002'') = default_retry \<and> (5::nat) = 10
         \<or> (\<exists>opts. ?o = Some opts
              \<and> (retry_opt opts = Absent \<and> (\<lambda>e. code e = Some ''P2002'') = default_retry
                    \<or> retry_opt opts = Has (\<lambda>e. code e = Some ''P2002''))
              \<and> (numOfAttempts_opt opts = Absent \<and> (5::nat) = 10
                    \<or> numOfAttempts_opt opts = Has 5))"
    by simp
  have r1: "RetryTransactions None 10 ?t = Ran (Inr 42) 3"
    by (simp add: RetryTransactions_def backOff_def backOff_from.simps merged_options_def
        default_retry_def)
  have r2: "RetryTransactions ?o 10 ?u = Ran (Inl (Coded ''P2034'' ''write conflict'')) 3"
    by (simp add: RetryTransactions_def backOff_def backOff_from.simps merged_options_def)
  show ?thesis
    using r1 r2
      retry_while_eligible_and_attempts_left [OF h1, of ?t]
      retry_while_eligible_and_attempts_left [OF h2, of ?u]
    by (simp add: default_retry_def)
qed

text \<open>
  Claim C7 as stated fails: a failure the classifier marks retry-eligible is not
  retried once the attempt limit is reached (here a limit of one attempt set by the
  caller, and a limit of two).
\<close>

theorem eligible_failure_not_retried_at_limit:
  "default_retry (Coded ''P2034'' ''write conflict'')
   \<and> RetryTransactions (Some \<lparr>retry_opt = Absent, numOfAttempts_opt = Has 1\<rparr>) 10
        (\<lambda>k::nat. (Inl (Coded ''P2034'' ''write conflict'') :: thrown + nat))
     = Ran (Inl (Coded ''P2034'' ''write conflict'')) 1
   \<and> RetryTransactions None 2
        (\<lambda>k::nat. (Inl (Coded ''P2034'' ''write conflict'') :: thrown + nat))
     = Ran (Inl (Coded ''P2034'' ''write conflict'')) 2"
  by (simp add: RetryTransactions_def backOff_def backOff_from.simps merged_options_def
      default_retry_def)

subsection \<open>Offset pagination\<close>

lemma paginate_take_precedence:
  "paginate_take empty_rest args =
     (case pagination_take args of
        Some t \<Rightarrow> t
      | None \<Rightarrow>
          (case take_q (operationArgs (case args of None \<Rightarrow> no_args empty_rest | Some a \<Rightarrow> a)) of
             Some t \<Rightarrow> t
           | None \<Rightarrow> 10))"
  by (simp add: paginate_take_def nullish_def coalesce_def split: option.splits)

lemma paginate_skip_precedence:
  "paginate_skip empty_rest args =
     (case pagination_skip args of
        Some t \<Rightarrow> t
      | None \<Rightarrow>
          (case skip_q (operationArgs (case args of None \<Rightarrow> no_args empty_rest | Some a \<Rightarrow> a)) of
             Some t \<Rightarrow> t
           | None \<Rightarrow> 0))"
  by (simp add: paginate_skip_def nullish_def coalesce_def split: option.splits)

lemma paginate_query_window:
  "take_q (paginate_query empty_rest args) = Some (paginate_take empty_rest args)
   \<and> skip_q (paginate_query empty_rest args) = Some (paginate_skip empty_rest args)"
  by (simp add: paginate_query_def Let_def)

lemma paginate_query_index_window:
  "take_q (paginate_query_index empty_rest args) = Some (paginate_take_index args)
   \<and> skip_q (paginate_query_index empty_rest args) = Some (paginate_skip_index args)"
  by (simp add: paginate_query_index_def Let_def)

text \<open>
  Claim C5 at \<^verbatim>\<open>paginate({ take: 5, skip: 3 })\<close>: the \<open>paginate\<close> of
  \<^verbatim>\<open>src/src/index.ts\<close> queries with take 10 and skip 0, the one of
  \<^verbatim>\<open>src/unnamed/part_000\<close> with the base query's take 5 and skip 3.
\<close>

theorem paginate_index_ignores_base_query:
  "take_q (paginate_query_index ()
      (Some \<lparr>pagination = None,
             operationArgs = \<lparr>where_q = (None :: unit option), take_q = Some 5, skip_q = Some 3,
                              rest_q = ()\<rparr>\<rparr>)) = Some 10
   \<and> skip_q (paginate_query_index ()
      (Some \<lparr>pagination = None,
             operationArgs = \<lparr>where_q = (None :: unit option), take_q = Some 5, skip_q = Some 3,
                              rest_q = ()\<rparr>\<rparr>)) = Some 0
   \<and> take_q (paginate_query ()
      (Some \<lparr>pagination = None,
             operationArgs = \<lparr>where_q = (None :: unit option), take_q = Some 5, skip_q = Some 3,
                              rest_q = ()\<rparr>\<rparr>)) = Some 5
   \<and> skip_q (paginate_query ()
      (Some \<lparr>pagination = None,
             operationArgs = \<lparr>where_q = (None :: unit option), take_q = Some 5, skip_q = Some 3,
                              rest_q = ()\<rparr>\<rparr>)) = Some 3"
  by (simp add: paginate_query_index_def paginate_query_def paginate_take_index_def
      paginate_skip_index_def paginate_take_def paginate_skip_def pagination_take_def
      pagination_skip_def nullish_def coalesce_def)

text \<open>
  Claim C6, as amended.  For every \<open>paginate\<close> call, what the client's \<^verbatim>\<open>findMany\<close>
  receives (a client that answers with the query it was asked shows it) is the base
  query with its take and skip set to the resolved values as they are: the take or
  skip of the pagination argument when it gives one, whatever its sign; else, in the
  \<open>paginate\<close> of \<^verbatim>\<open>part_000\<close> and \<^verbatim>\<open>part_001\<close>, the take or skip of the base query when
  it has one, whatever its sign; else 10 for take and 0 for skip.  The \<open>paginate\<close> of
  \<^verbatim>\<open>src/src/index.ts\<close> goes from the pagination argument to 10 and 0.  Nothing is
  clamped.
\<close>

theorem paginate_window_passed_unchanged:
  fixes base :: "('w, 'o) find_many_args"
  shows
  "paginate first (\<lambda>q. Inr [q]) (\<lambda>w. Inr n) empty_rest
       (Some \<lparr>pagination = pg, operationArgs = base\<rparr>)
     = Inr ([base\<lparr>skip_q :=
                   Some (case (case pg of None \<Rightarrow> None | Some p \<Rightarrow> skip_pg p) of
                           Some s \<Rightarrow> s
                         | None \<Rightarrow> (case skip_q base of Some s \<Rightarrow> s | None \<Rightarrow> 0)),
                 take_q :=
                   Some (case (case pg of None \<Rightarrow> None | Some p \<Rightarrow> take_pg p) of
                           Some t \<Rightarrow> t
                         | None \<Rightarrow> (case take_q base of Some t \<Rightarrow> t | None \<Rightarrow> 10))\<rparr>], n)
   \<and> paginate first (\<lambda>q. Inr [q]) (\<lambda>w :: 'w option. Inr n) (empty_rest :: 'o) None
     = Inr ([\<lparr>where_q = None, take_q = Some 10, skip_q = Some 0, rest_q = empty_rest\<rparr>], n)
   \<and> paginate_index first (\<lambda>q. Inr [q]) (\<lambda>w. Inr n) empty_rest
       (Some \<lparr>pagination = pg, operationArgs = base\<rparr>)
     = Inr ([base\<lparr>skip_q :=
                   Some (case (case pg of None \<Rightarrow> None | Some p \<Rightarrow> skip_pg p) of
                           Some s \<Rightarrow> s
                         | None \<Rightarrow> 0),
                 take_q :=
                   Some (case (case pg of None \<Rightarrow> None | Some p \<Rightarrow> take_pg p) of
                           Some t \<Rightarrow> t
                         | None \<Rightarrow> 10)\<rparr>], n)
   \<and> paginate_index first (\<lambda>q. Inr [q]) (\<lambda>w :: 'w option. Inr n) (empty_rest :: 'o) None
     = Inr ([\<lparr>where_q = None, take_q = Some 10, skip_q = Some 0, rest_q = empty_rest\<rparr>], n)"
  by (simp add: paginate_def paginate_index_def paginate_query_def paginate_query_index_def
      paginate_take_def paginate_skip_def paginate_take_index_def paginate_skip_index_def
      pagination_take_def pagination_skip_def nullish_def coalesce_def no_args_def Let_def
      split: option.splits)

theorem paginate_window_passed_unchanged_witness:
  "paginate CountFirst (\<lambda>q. Inr [q]) (\<lambda>w. Inr 7) ()
     (Some \<lparr>pagination = Some \<lparr>take_pg = Some (- 5), skip_pg = None\<rparr>,
            operationArgs = \<lparr>where_q = (None :: unit option), take_q = Some 5,
                             skip_q = Some (- 2), rest_q = ()\<rparr>\<rparr>)
     = Inr ([\<lparr>where_q = None, take_q = Some (- 5), skip_q = Some (- 2), rest_q = ()\<rparr>], 7)
   \<and> paginate_index CountFirst (\<lambda>q. Inr [q]) (\<lambda>w. Inr 7) ()
     (Some \<lparr>pagination = Some \<lparr>take_pg = Some (- 5), skip_pg = None\<rparr>,
            operationArgs = \<lparr>where_q = (None :: unit option), take_q = None,
                             skip_q = None, rest_q = ()\<rparr>\<rparr>)
     = Inr ([\<lparr>where_q = None, take_q = Some (- 5), skip_q = Some 0, rest_q = ()\<rparr>], 7)"
  using
    paginate_window_passed_unchanged
      [of CountFirst 7 "()" "Some \<lparr>take_pg = Some (- 5), skip_pg = None\<rparr>"
          "\<lparr>where_q = (None :: unit option), take_q = Some 5, skip_q = Some (- 2), rest_q = ()\<rparr>"]
    paginate_window_passed_unchanged
      [of CountFirst 7 "()" "Some \<lparr>take_pg = Some (- 5), skip_pg = None\<rparr>"
          "\<lparr>where_q = (None :: unit option), take_q = None, skip_q = None, rest_q = ()\<rparr>"]
  by simp

text \<open>
  Claim C6 as stated fails: a negative take and a negative skip given in the
  pagination argument reach \<^verbatim>\<open>findMany\<close> as they are, in both versions of \<open>paginate\<close>.
\<close>

theorem paginate_negative_window_not_clamped:
  "take_q (paginate_query ()
     (Some \<lparr>pagination = Some \<lparr>take_pg = Some (- 5), skip_pg = Some (- 2)\<rparr>,
            operationArgs = \<lparr>where_q = (None :: unit option), take_q = None, skip_q = None,
                             rest_q = ()\<rparr>\<rparr>)) = Some (- 5)
   \<and> skip_q (paginate_query ()
     (Some \<lparr>pagination = Some \<lparr>take_pg = Some (- 5), skip_pg = Some (- 2)\<rparr>,
            operationArgs = \<lparr>where_q = (None :: unit option), take_q = None, skip_q = None,
                             rest_q = ()\<rparr>\<rparr>)) = Some (- 2)
   \<and> take_q (paginate_query_index ()
     (Some \<lparr>pagination = Some \<lparr>take_pg = Some (- 5), skip_pg = Some (- 2)\<rparr>,
            operationArgs = \<lparr>where_q = (None :: unit option), take_q = None, skip_q = None,
                             rest_q = ()\<rparr>\<rparr>)) = Some (- 5)
   \<and> skip_q (paginate_query_index ()
     (Some \<lparr>pagination = Some \<lparr>take_pg = Some (- 5), skip_pg = Some (- 2)\<rparr>,
            operationArgs = \<lparr>where_q = (None :: unit option), take_q = None, skip_q = None,
                             rest_q = ()\<rparr>\<rparr>)) = Some (- 2)
   \<and> paginate FindManyFirst (\<lambda>q. Inr [q]) (\<lambda>w. Inr 5) ()
     (Some \<lparr>pagination = Some \<lparr>take_pg = Some (- 5), skip_pg = Some (- 2)\<rparr>,
            operationArgs = \<lparr>where_q = (None :: unit option), take_q = None, skip_q = None,
                             rest_q = ()\<rparr>\<rparr>)
     = Inr ([\<lparr>where_q = None, take_q = Some (- 5), skip_q = Some (- 2), rest_q = ()\<rparr>], 5)
   \<and> (- 5 :: int) < 0 \<and> (- 2 :: int) < 0"
  by (simp add: paginate_def paginate_query_index_def paginate_query_def
      paginate_take_index_def paginate_skip_index_def paginate_take_def paginate_skip_def
      pagination_take_def pagination_skip_def nullish_def coalesce_def)

subsection \<open>Random sampling\<close>

lemma matches_exclude:
  "matches (Some (exclude wh ids)) r \<longleftrightarrow> row_id r \<notin> set ids \<and> other_keys wh r"
  by (simp add: matches_def exclude_def)

lemma matches_coalesce:
  "matches (Some (coalesce wh empty_where)) = matches wh"
  by (cases wh) (auto simp: matches_def coalesce_def empty_where_def fun_eq_iff)

lemma count_coalesce:
  "count table (Some (coalesce wh empty_where)) = count table wh"
  by (simp add: count_def matches_coalesce)

lemma findFirst_Some:
  "findFirst table wh k = Some r \<Longrightarrow> r \<in> set table \<and> matches wh r"
proof -
  assume a: "findFirst table wh k = Some r"
  define found where "found = filter (matches wh) table"
  from a have "k < length found" and r: "r = found ! k"
    by (auto simp: findFirst_def found_def Let_def split: if_splits)
  then have "r \<in> set found"
    by simp
  then show ?thesis by (simp add: found_def)
qed

lemma findFirst_None_iff:
  "findFirst table wh k = None \<longleftrightarrow> count table wh \<le> k"
  by (auto simp: findFirst_def count_def Let_def)

lemma draw_Some:
  "draw db rnd wh i st = Some r \<Longrightarrow>
   r \<in> set (db (Suc i)) \<and> row_id r \<notin> set (rowIds st) \<and> other_keys wh r"
  unfolding draw_def by (drule findFirst_Some) (simp add: matches_exclude)

lemma draw_console [simp]:
  "draw db rnd wh i (st\<lparr>console := c\<rparr>) = draw db rnd wh i st"
  by (simp add: draw_def)

lemma pushed_simps [simp]:
  "rows (pushed st r) = rows st @ [r]"
  "rowIds (pushed st r) = rowIds st @ [row_id r]"
  "numRows (pushed st r) = numRows st - 1"
  "console (pushed st r) = console st"
  by (simp_all add: pushed_def)

lemma draw_loop_cases:
  obtains
    (exit) "\<not> (int i < num \<and> numRows st > 0)"
      "draw_loop db rnd wh num i st = (st, None)"
      "draw_states db rnd wh num i st = [st]"
  | (miss) "int i < num \<and> numRows st > 0" "draw db rnd wh i st = None"
      "draw_loop db rnd wh num i st =
         (case message wh (rowIds st) of
            Inl e \<Rightarrow> (st, Some e)
          | Inr d \<Rightarrow> (st\<lparr>console := console st @ [d]\<rparr>, None))"
      "draw_states db rnd wh num i st = [st]"
  | (hit) r where "int i < num \<and> numRows st > 0" "draw db rnd wh i st = Some r"
      "draw_loop db rnd wh num i st = draw_loop db rnd wh num (Suc i) (pushed st r)"
      "draw_states db rnd wh num i st = st # draw_states db rnd wh num (Suc i) (pushed st r)"
proof (cases "int i < num \<and> numRows st > 0")
  case False
  have "draw_loop db rnd wh num i st = (st, None)" "draw_states db rnd wh num i st = [st]"
    using False by (auto simp: draw_loop.simps [of db rnd wh num i st]
        draw_states.simps [of db rnd wh num i st])
  with False show ?thesis by (rule exit)
next
  case True
  show ?thesis
  proof (cases "draw db rnd wh i st")
    case None
    have "draw_loop db rnd wh num i st =
         (case message wh (rowIds st) of
            Inl e \<Rightarrow> (st, Some e)
          | Inr d \<Rightarrow> (st\<lparr>console := console st @ [d]\<rparr>, None))"
      "draw_states db rnd wh num i st = [st]"
      using True None by (simp_all add: draw_loop.simps [of db rnd wh num i st]
          draw_states.simps [of db rnd wh num i st])
    with True None show ?thesis by (rule miss)
  next
    case (Some r)
    have "draw_loop db rnd wh num i st = draw_loop db rnd wh num (Suc i) (pushed st r)"
      "draw_states db rnd wh num i st = st # draw_states db rnd wh num (Suc i) (pushed st r)"
      using True Some by (simp_all add: draw_loop.simps [of db rnd wh num i st]
          draw_states.simps [of db rnd wh num i st])
    with True Some show ?thesis by (rule hit)
  qed
qed

lemma draw_states_hd:
  "draw_states db rnd wh num i st \<noteq> [] \<and> hd (draw_states db rnd wh num i st) = st"
  by (cases rule: draw_loop_cases [of i num st db rnd wh]) simp_all

lemma draw_states_first: "draw_states db rnd wh num i st ! 0 = st"
  by (cases rule: draw_loop_cases [of i num st db rnd wh]) simp_all

text \<open>
  The variables the loop is left with are those of the last state in which it
  evaluated its condition; only the console can differ.
\<close>

lemma draw_loop_last:
  "rows (fst (draw_loop db rnd wh num i st)) = rows (last (draw_states db rnd wh num i st))
   \<and> rowIds (fst (draw_loop db rnd wh num i st))
       = rowIds (last (draw_states db rnd wh num i st))
   \<and> numRows (fst (draw_loop db rnd wh num i st))
       = numRows (last (draw_states db rnd wh num i st))"
proof (induction db rnd wh num i st rule: draw_loop.induct)
  case (1 db rnd wh num i st)
  show ?case
  proof (cases rule: draw_loop_cases [of i num st db rnd wh])
    case (hit r)
    then show ?thesis
      using "1.IH" [of r] draw_states_hd [of db rnd wh num "Suc i" "pushed st r"] by simp
  next
    case miss
    then show ?thesis by (simp split: sum.splits)
  qed simp_all
qed

lemma draw_states_grows:
  "successively
     (\<lambda>a b. (\<exists>r. rows b = rows a @ [r] \<and> rowIds b = rowIds a @ [row_id r]
                   \<and> row_id r \<notin> set (rowIds a))
            \<and> numRows b = numRows a - 1 \<and> 0 < numRows a)
     (draw_states db rnd wh num i st)"
proof (induction db rnd wh num i st rule: draw_states.induct)
  case (1 db rnd wh num i st)
  show ?case
  proof (cases rule: draw_loop_cases [of i num st db rnd wh])
    case (hit r)
    then show ?thesis
      using "1.IH" [of r] draw_states_hd [of db rnd wh num "Suc i" "pushed st r"]
        draw_Some [of db rnd wh i st r]
      by (simp add: successively_Cons)
  qed simp_all
qed

lemma draw_states_step:
  assumes "Suc k < length (draw_states db rnd wh num i st)"
  shows "(\<exists>r. rows (draw_states db rnd wh num i st ! Suc k)
                 = rows (draw_states db rnd wh num i st ! k) @ [r]
              \<and> rowIds (draw_states db rnd wh num i st ! Suc k)
                 = rowIds (draw_states db rnd wh num i st ! k) @ [row_id r]
              \<and> row_id r \<notin> set (rowIds (draw_states db rnd wh num i st ! k)))
       \<and> numRows (draw_states db rnd wh num i st ! Suc k)
           = numRows (draw_states db rnd wh num i st ! k) - 1
       \<and> 0 < numRows (draw_states db rnd wh num i st ! k)"
  using successively_nth [OF draw_states_grows assms] .

lemma draw_states_invariant:
  assumes "k < length (draw_states db rnd wh num i st)"
    and "distinct (rowIds st)" and "0 \<le> numRows st"
  shows "distinct (rowIds (draw_states db rnd wh num i st ! k))
       \<and> 0 \<le> numRows (draw_states db rnd wh num i st ! k)
       \<and> numRows (draw_states db rnd wh num i st ! k) = numRows st - int k
       \<and> length (rowIds (draw_states db rnd wh num i st ! k)) = length (rowIds st) + k"
  using assms(1)
proof (induction k)
  case 0
  then show ?case
    using assms(2,3) by (simp add: draw_states_first)
next
  case (Suc k)
  then have "k < length (draw_states db rnd wh num i st)" by simp
  then show ?case
    using Suc.IH draw_states_step [OF Suc.prems] by auto
qed

text \<open>
  How the loop is left.  With \<open>j\<close> the iteration it is left in: when the draw of that
  iteration returned no row although the loop condition held, the message is
  evaluated, and either it throws and that is thrown out of the loop with nothing
  written, or it is written; otherwise nothing is thrown and nothing is written.
\<close>

lemma draw_loop_outcome:
  "length (rows st) \<le> length (rows (fst (draw_loop db rnd wh num i st)))
   \<and> (if int (i + (length (rows (fst (draw_loop db rnd wh num i st))) - length (rows st))) < num
          \<and> 0 < numRows (fst (draw_loop db rnd wh num i st))
          \<and> draw db rnd wh
               (i + (length (rows (fst (draw_loop db rnd wh num i st))) - length (rows st)))
               (fst (draw_loop db rnd wh num i st)) = None
       then (case message wh (rowIds (fst (draw_loop db rnd wh num i st))) of
               Inl e \<Rightarrow>
                 snd (draw_loop db rnd wh num i st) = Some e
                 \<and> console (fst (draw_loop db rnd wh num i st)) = console st
             | Inr d \<Rightarrow>
                 snd (draw_loop db rnd wh num i st) = None
                 \<and> console (fst (draw_loop db rnd wh num i st)) = console st @ [d])
       else snd (draw_loop db rnd wh num i st) = None
            \<and> console (fst (draw_loop db rnd wh num i st)) = console st)"
proof (induction db rnd wh num i st rule: draw_loop.induct)
  case (1 db rnd wh num i st)
  show ?case
  proof (cases rule: draw_loop_cases [of i num st db rnd wh])
    case exit
    then show ?thesis by auto
  next
    case miss
    then show ?thesis by (cases "message wh (rowIds st)") simp_all
  next
    case (hit r)
    let ?fin = "fst (draw_loop db rnd wh num (Suc i) (pushed st r))"
    note ih = "1.IH" [OF hit(1) hit(2)]
    from ih have "length (rows (pushed st r)) \<le> length (rows ?fin)"
      by (rule conjunct1)
    then have le: "Suc (length (rows st)) \<le> length (rows ?fin)"
      by simp
    then have le': "length (rows st) \<le> length (rows ?fin)"
      by simp
    have eq: "Suc i + (length (rows ?fin) - length (rows (pushed st r)))
          = i + (length (rows ?fin) - length (rows st))"
      using le by simp
    have c: "console (pushed st r) = console st"
      by simp
    from ih [unfolded eq c] have rest:
      "if int (i + (length (rows ?fin) - length (rows st))) < num
          \<and> 0 < numRows ?fin
          \<and> draw db rnd wh (i + (length (rows ?fin) - length (rows st))) ?fin = None
       then (case message wh (rowIds ?fin) of
               Inl e \<Rightarrow>
                 snd (draw_loop db rnd wh num (Suc i) (pushed st r)) = Some e
                 \<and> console ?fin = console st
             | Inr d \<Rightarrow>
                 snd (draw_loop db rnd wh num (Suc i) (pushed st r)) = None
                 \<and> console ?fin = console st @ [d])
       else snd (draw_loop db rnd wh num (Suc i) (pushed st r)) = None
            \<and> console ?fin = console st"
      by (rule conjunct2)
    show ?thesis
      unfolding hit(3) using le' rest by (rule conjI)
  qed
qed

text \<open>
  Claim C3.  Throughout a call of \<open>findManyRandom\<close>, whatever the tables and the
  random numbers: the loop starts with an empty exclusion list and the count as its
  counter; from each state in which the loop evaluates its condition to the next, the
  exclusion list gets one identifier appended, one that was not in it, and the counter
  decreases by exactly one from a positive value (so no draw follows a counter of
  zero); in every such state the identifiers of the exclusion list are distinct, there
  are as many as draws made, and the counter is the count minus the draws made, never
  negative.  The state the call ends in has the exclusion list and the counter of the
  last of these states.
\<close>

theorem exclusion_grows_counter_decreases:
  "findManyRandom_states db rnd num args \<noteq> []
   \<and> findManyRandom_states db rnd num args ! 0 = draw_init db args
   \<and> rowIds (draw_init db args) = []
   \<and> numRows (draw_init db args) = int (count (db 0) (args_where args))
   \<and> (\<forall>k. Suc k < length (findManyRandom_states db rnd num args) \<longrightarrow>
         (\<exists>r. rows (findManyRandom_states db rnd num args ! Suc k)
                 = rows (findManyRandom_states db rnd num args ! k) @ [r]
              \<and> rowIds (findManyRandom_states db rnd num args ! Suc k)
                 = rowIds (findManyRandom_states db rnd num args ! k) @ [row_id r]
              \<and> row_id r \<notin> set (rowIds (findManyRandom_states db rnd num args ! k)))
         \<and> numRows (findManyRandom_states db rnd num args ! Suc k)
             = numRows (findManyRandom_states db rnd num args ! k) - 1
         \<and> 0 < numRows (findManyRandom_states db rnd num args ! k))
   \<and> (\<forall>k. k < length (findManyRandom_states db rnd num args) \<longrightarrow>
         distinct (rowIds (findManyRandom_states db rnd num args ! k))
         \<and> 0 \<le> numRows (findManyRandom_states db rnd num args ! k)
         \<and> numRows (findManyRandom_states db rnd num args ! k)
             = int (count (db 0) (args_where args)) - int k
         \<and> length (rowIds (findManyRandom_states db rnd num args ! k)) = k)
   \<and> rowIds (findManyRandom_run db rnd num args)
       = rowIds (last (findManyRandom_states db rnd num args))
   \<and> numRows (findManyRandom_run db rnd num args)
       = numRows (last (findManyRandom_states db rnd num args))
   \<and> distinct (rowIds (findManyRandom_run db rnd num args))
   \<and> 0 \<le> numRows (findManyRandom_run db rnd num args)"
proof -
  let ?wh = "coalesce (args_where args) empty_where"
  let ?tr = "draw_states db rnd ?wh num 0 (draw_init db args)"
  have i: "rowIds (draw_init db args) = []"
    "numRows (draw_init db args) = int (count (db 0) (args_where args))"
    by (simp_all add: draw_init_def count_coalesce)
  have n: "?tr \<noteq> []" and f: "?tr ! 0 = draw_init db args"
    using draw_states_hd [of db rnd ?wh num 0 "draw_init db args"]
    by (simp_all add: draw_states_first)
  have s: "(\<exists>r. rows (?tr ! Suc k) = rows (?tr ! k) @ [r]
              \<and> rowIds (?tr ! Suc k) = rowIds (?tr ! k) @ [row_id r]
              \<and> row_id r \<notin> set (rowIds (?tr ! k)))
         \<and> numRows (?tr ! Suc k) = numRows (?tr ! k) - 1
         \<and> 0 < numRows (?tr ! k)" if "Suc k < length ?tr" for k
    using that by (rule draw_states_step)
  have v: "distinct (rowIds (?tr ! k)) \<and> 0 \<le> numRows (?tr ! k)
         \<and> numRows (?tr ! k) = int (count (db 0) (args_where args)) - int k
         \<and> length (rowIds (?tr ! k)) = k" if "k < length ?tr" for k
    using draw_states_invariant [OF that] i by simp
  have l: "rowIds (fst (draw_loop db rnd ?wh num 0 (draw_init db args))) = rowIds (last ?tr)"
    "numRows (fst (draw_loop db rnd ?wh num 0 (draw_init db args))) = numRows (last ?tr)"
    using draw_loop_last [of db rnd ?wh num 0 "draw_init db args"] by simp_all
  have "length ?tr - 1 < length ?tr" using n by simp
  from v [OF this] have e: "distinct (rowIds (last ?tr))" "0 \<le> numRows (last ?tr)"
    using n by (simp_all add: last_conv_nth)
  have s': "\<forall>k. Suc k < length ?tr \<longrightarrow>
         (\<exists>r. rows (?tr ! Suc k) = rows (?tr ! k) @ [r]
              \<and> rowIds (?tr ! Suc k) = rowIds (?tr ! k) @ [row_id r]
              \<and> row_id r \<notin> set (rowIds (?tr ! k)))
         \<and> numRows (?tr ! Suc k) = numRows (?tr ! k) - 1
         \<and> 0 < numRows (?tr ! k)"
    by (intro allI impI) (rule s)
  have v': "\<forall>k. k < length ?tr \<longrightarrow>
         distinct (rowIds (?tr ! k)) \<and> 0 \<le> numRows (?tr ! k)
         \<and> numRows (?tr ! k) = int (count (db 0) (args_where args)) - int k
         \<and> length (rowIds (?tr ! k)) = k"
    by (intro allI impI) (rule v)
  show ?thesis
    unfolding findManyRandom_states_def findManyRandom_run_def
    using l e by (intro conjI) (rule n f i s' v' | simp)+
qed


lemmas sampling_eval =
  findManyRandom_def findManyRandom_run_def findManyRandom_states_def draw_init_def
  draw_loop.simps draw_states.simps draw_def pushed_def findFirst_def count_def matches_def
  exclude_def random_skip_def coalesce_def args_where_def empty_where_def findRandom_def
  message_def type_error_def

theorem exclusion_grows_counter_decreases_witness:
  "findManyRandom_states
     (\<lambda>k. [\<lparr>row_id = IdString ''a'', payload = 1\<rparr>, \<lparr>row_id = IdString ''b'', payload = 2\<rparr>,
            \<lparr>row_id = IdString ''c'', payload = 3\<rparr>]) (\<lambda>i. 0) 2 None
   = [\<lparr>rows = [], rowIds = [], numRows = 3, console = []\<rparr>,
      \<lparr>rows = [\<lparr>row_id = IdString ''a'', payload = 1\<rparr>], rowIds = [IdString ''a''],
       numRows = 2, console = []\<rparr>,
      \<lparr>rows = [\<lparr>row_id = IdString ''a'', payload = 1\<rparr>, \<lparr>row_id = IdString ''b'', payload = 2\<rparr>],
       rowIds = [IdString ''a'', IdString ''b''], numRows = 1, console = []\<rparr>]
   \<and> Suc 1 < length (findManyRandom_states
     (\<lambda>k. [\<lparr>row_id = IdString ''a'', payload = 1\<rparr>, \<lparr>row_id = IdString ''b'', payload = 2\<rparr>,
            \<lparr>row_id = IdString ''c'', payload = 3\<rparr>]) (\<lambda>i. 0) 2 None)
   \<and> numRows (findManyRandom_states
     (\<lambda>k. [\<lparr>row_id = IdString ''a'', payload = 1\<rparr>, \<lparr>row_id = IdString ''b'', payload = 2\<rparr>,
            \<lparr>row_id = IdString ''c'', payload = 3\<rparr>]) (\<lambda>i. 0) 2 None ! Suc 1)
     = numRows (findManyRandom_states
     (\<lambda>k. [\<lparr>row_id = IdString ''a'', payload = 1\<rparr>, \<lparr>row_id = IdString ''b'', payload = 2\<rparr>,
            \<lparr>row_id = IdString ''c'', payload = 3\<rparr>]) (\<lambda>i. 0) 2 None ! 1) - 1
   \<and> distinct (rowIds (findManyRandom_run
     (\<lambda>k. [\<lparr>row_id = IdString ''a'', payload = 1\<rparr>, \<lparr>row_id = IdString ''b'', payload = 2\<rparr>,
            \<lparr>row_id = IdString ''c'', payload = 3\<rparr>]) (\<lambda>i. 0) 2 None))"
proof -
  let ?db = "\<lambda>k::nat. [\<lparr>row_id = IdString ''a'', payload = 1\<rparr>,
            \<lparr>row_id = IdString ''b'', payload = 2\<rparr>, \<lparr>row_id = IdString ''c'', payload = 3\<rparr>]"
  have t: "findManyRandom_states ?db (\<lambda>i. 0) 2 None
   = [\<lparr>rows = [], rowIds = [], numRows = 3, console = []\<rparr>,
      \<lparr>rows = [\<lparr>row_id = IdString ''a'', payload = 1\<rparr>], rowIds = [IdString ''a''],
       numRows = 2, console = []\<rparr>,
      \<lparr>rows = [\<lparr>row_id = IdString ''a'', payload = 1\<rparr>, \<lparr>row_id = IdString ''b'', payload = 2\<rparr>],
       rowIds = [IdString ''a'', IdString ''b''], numRows = 1, console = []\<rparr>]"
    by (simp add: sampling_eval)
  have h: "Suc 1 < length (findManyRandom_states ?db (\<lambda>i. 0) 2 None)"
    by (simp add: t)
  show ?thesis
    using t h exclusion_grows_counter_decreases [of ?db "\<lambda>i. 0" 2 None] by simp
qed

lemma draw_init_simps [simp]:
  "rows (draw_init db args) = []"
  "rowIds (draw_init db args) = []"
  "numRows (draw_init db args) = int (count (db 0) (args_where args))"
  "console (draw_init db args) = []"
  by (simp_all add: draw_init_def count_coalesce)

lemma findManyRandom_result:
  "findManyRandom db rnd num args =
     (case snd (draw_loop db rnd (coalesce (args_where args) empty_where) num 0
                  (draw_init db args)) of
        Some e \<Rightarrow> Inl e
      | None \<Rightarrow> Inr (rows (findManyRandom_run db rnd num args)))"
  by (simp add: findManyRandom_def findManyRandom_run_def split_beta split: option.splits)

text \<open>
  The identifiers the loop excludes are identifiers of rows of the tables.
\<close>

lemma draw_loop_ids:
  "set (rowIds (fst (draw_loop db rnd wh num i st)))
     \<subseteq> set (rowIds st) \<union> row_id ` (\<Union>k. set (db k))"
proof (induction db rnd wh num i st rule: draw_loop.induct)
  case (1 db rnd wh num i st)
  show ?case
  proof (cases rule: draw_loop_cases [of i num st db rnd wh])
    case exit
    then show ?thesis by simp
  next
    case miss
    then show ?thesis by (cases "message wh (rowIds st)") simp_all
  next
    case (hit r)
    have "row_id r \<in> row_id ` (\<Union>k. set (db k))"
      using draw_Some [OF hit(2)] by blast
    then show ?thesis
      using "1.IH" [OF hit(1) hit(2)] unfolding hit(3) by auto
  qed
qed

text \<open>
  Support for claim C9.  On an empty population (the count is 0) \<open>findRandom\<close>
  returns null, when the table is the same for its two queries, and \<open>findManyRandom\<close>
  returns the empty list and writes no diagnostic.
\<close>

lemma sampling_of_empty_population:
  assumes "count (db 0) (args_where args) = 0"
  shows "(db 1 = db 0 \<longrightarrow> findRandom db u args = None)
       \<and> findManyRandom db rnd num args = Inr []
       \<and> console (findManyRandom_run db rnd num args) = []"
proof -
  let ?wh = "coalesce (args_where args) empty_where"
  have a: "findRandom db u args = None" if "db 1 = db 0"
    using that assms by (simp add: findRandom_def findFirst_None_iff)
  have "\<not> (int 0 < num \<and> numRows (draw_init db args) > 0)"
    using assms by simp
  then have "draw_loop db rnd ?wh num 0 (draw_init db args) = (draw_init db args, None)"
    by (cases rule: draw_loop_cases [of 0 num "draw_init db args" db rnd ?wh]) simp_all
  then show ?thesis
    using a by (simp add: findManyRandom_def findManyRandom_run_def)
qed

text \<open>
  Support for claim C9.  When \<^verbatim>\<open>JSON.stringify\<close> can print the caller's filter (its
  text is \<open>json\<close>) and no identifier of the tables is a bigint, \<open>findManyRandom\<close> never
  fails: it returns the rows collected, and it has written one diagnostic if it was
  left on a draw that returned no row although the loop condition held, and none
  otherwise.
\<close>

lemma sampling_shortfall_when_printable:
  assumes "other_json (coalesce (args_where args) empty_where) = Some json"
    and "\<forall>k. \<forall>r\<in>set (db k). \<not> is_bigint (row_id r)"
  shows "findManyRandom db rnd num args = Inr (rows (findManyRandom_run db rnd num args))
       \<and> rows (findManyRandom_run db rnd num args)
           = rows (last (findManyRandom_states db rnd num args))
       \<and> console (findManyRandom_run db rnd num args) =
           (if int (length (rows (findManyRandom_run db rnd num args))) < num
               \<and> 0 < numRows (findManyRandom_run db rnd num args)
               \<and> draw db rnd (coalesce (args_where args) empty_where)
                     (length (rows (findManyRandom_run db rnd num args)))
                     (findManyRandom_run db rnd num args) = None
            then [GetRandomRowFailed json (rowIds (findManyRandom_run db rnd num args))]
            else [])"
proof -
  let ?wh = "coalesce (args_where args) empty_where"
  let ?loop = "draw_loop db rnd ?wh num 0 (draw_init db args)"
  have "set (rowIds (fst ?loop)) \<subseteq> row_id ` (\<Union>k. set (db k))"
    using draw_loop_ids [of db rnd ?wh num 0 "draw_init db args"] by simp
  then have "\<not> list_ex is_bigint (rowIds (fst ?loop))"
    using assms(2) by (auto simp: list_ex_iff)
  then have m: "message ?wh (rowIds (fst ?loop))
                = Inr (GetRandomRowFailed json (rowIds (fst ?loop)))"
    using assms(1) by (simp add: message_def)
  have o: "snd ?loop = None
         \<and> console (fst ?loop) =
           (if int (length (rows (fst ?loop))) < num \<and> 0 < numRows (fst ?loop)
               \<and> draw db rnd ?wh (length (rows (fst ?loop))) (fst ?loop) = None
            then [GetRandomRowFailed json (rowIds (fst ?loop))] else [])"
    using draw_loop_outcome [of "draw_init db args" db rnd ?wh num 0] m
    by (simp split: if_splits)
  have l: "rows (fst ?loop) = rows (last (draw_states db rnd ?wh num 0 (draw_init db args)))"
    using draw_loop_last [of db rnd ?wh num 0 "draw_init db args"] by simp
  show ?thesis
    using o l
    by (simp add: findManyRandom_result findManyRandom_run_def findManyRandom_states_def)
qed

text \<open>
  Claim C9 at \<^verbatim>\<open>findManyRandom(2, { where: { views: { gt: 0n } } })\<close>, a filter on a
  BigInt column, when rows \<open>a\<close> and \<open>b\<close> match at the count and at the first draw and
  another client has deleted row \<open>b\<close> before the second draw (\<open>payload\<close> stands for
  the column): the second draw returns no row, the message throws, and the call
  fails with the TypeError, with row \<open>a\<close> collected and nothing written.  The same
  happens without any filter when the identifiers are bigints.
\<close>

theorem findManyRandom_shortfall_throws:
  "findManyRandom
     (\<lambda>k. if k < 2 then [\<lparr>row_id = IdString ''a'', payload = 1\<rparr>,
                          \<lparr>row_id = IdString ''b'', payload = 2\<rparr>]
           else [\<lparr>row_id = IdString ''a'', payload = 1\<rparr>])
     (\<lambda>i. 0) 2
     (Some \<lparr>where_arg = Some \<lparr>id_key = None, other_keys = (\<lambda>r. 0 < payload r),
                               other_json = None\<rparr>\<rparr>)
     = Inl type_error
   \<and> findManyRandom_run
     (\<lambda>k. if k < 2 then [\<lparr>row_id = IdString ''a'', payload = 1\<rparr>,
                          \<lparr>row_id = IdString ''b'', payload = 2\<rparr>]
           else [\<lparr>row_id = IdString ''a'', payload = 1\<rparr>])
     (\<lambda>i. 0) 2
     (Some \<lparr>where_arg = Some \<lparr>id_key = None, other_keys = (\<lambda>r. 0 < payload r),
                               other_json = None\<rparr>\<rparr>)
     = \<lparr>rows = [\<lparr>row_id = IdString ''a'', payload = 1\<rparr>], rowIds = [IdString ''a''],
        numRows = 1, console = []\<rparr>
   \<and> findManyRandom
     (\<lambda>k. if k < 2 then [\<lparr>row_id = IdBigInt 1, payload = 1\<rparr>, \<lparr>row_id = IdBigInt 2, payload = 2\<rparr>]
           else [\<lparr>row_id = IdBigInt 1, payload = 1\<rparr>])
     (\<lambda>i. 0) 2 None
     = Inl type_error
   \<and> findManyRandom
     (\<lambda>k. if k < 2 then [\<lparr>row_id = IdString ''a'', payload = 1\<rparr>,
                          \<lparr>row_id = IdString ''b'', payload = 2\<rparr>]
           else [\<lparr>row_id = IdString ''a'', payload = 1\<rparr>])
     (\<lambda>i. 0) 2 None
     = Inr [\<lparr>row_id = IdString ''a'', payload = 1\<rparr>]"
  by (simp add: sampling_eval)

text \<open>
  Claim C2 at \<^verbatim>\<open>findManyRandom(1, { where: { id: "b" } })\<close> on the table of rows
  \<open>a\<close> and \<open>b\<close>, which does not change: one row matches the filter, and the call
  returns row \<open>a\<close>, which does not match it.
\<close>

theorem findManyRandom_replaces_id_filter:
  "count [\<lparr>row_id = IdString ''a'', payload = 1\<rparr>, \<lparr>row_id = IdString ''b'', payload = 2\<rparr>]
     (Some \<lparr>id_key = Some (IdEquals (IdString ''b'')), other_keys = (\<lambda>r. True),
            other_json = Some ''{}''\<rparr>) = 1
   \<and> findManyRandom
       (\<lambda>k. [\<lparr>row_id = IdString ''a'', payload = 1\<rparr>, \<lparr>row_id = IdString ''b'', payload = 2\<rparr>])
       (\<lambda>i. 0) 1
       (Some \<lparr>where_arg = Some \<lparr>id_key = Some (IdEquals (IdString ''b'')),
                                 other_keys = (\<lambda>r. True), other_json = Some ''{}''\<rparr>\<rparr>)
     = Inr [\<lparr>row_id = IdString ''a'', payload = 1\<rparr>]
   \<and> \<not> matches (Some \<lparr>id_key = Some (IdEquals (IdString ''b'')), other_keys = (\<lambda>r. True),
                      other_json = Some ''{}''\<rparr>)
         \<lparr>row_id = IdString ''a'', payload = 1\<rparr>"
  by (simp add: sampling_eval)

lemma random_skip_less:
  assumes "0 \<le> u" and "u < 1" and "0 < n"
  shows "random_skip u n < nat n"
proof -
  have "u * of_int n < of_int n"
    using assms by simp
  then have "\<lfloor>u * of_int n\<rfloor> < n"
    by (simp add: floor_less_iff)
  then show ?thesis
    using assms(3) by (simp add: random_skip_def)
qed

lemma filter_without_one:
  assumes "distinct (map f xs)" and "r \<in> set xs" and "P r"
  shows "length (filter (\<lambda>x. P x \<and> f x \<noteq> f r) xs) + 1 = length (filter P xs)"
  using assms
proof (induction xs)
  case Nil
  then show ?case by simp
next
  case (Cons x xs)
  show ?case
  proof (cases "x = r")
    case True
    have "f y \<noteq> f r" if "y \<in> set xs" for y
      using Cons.prems(1) True that by (auto simp: image_iff)
    then have "filter (\<lambda>x. P x \<and> f x \<noteq> f r) xs = filter P xs"
      by (intro filter_cong) auto
    then show ?thesis using True Cons.prems(3) by simp
  next
    case False
    then have r: "r \<in> set xs" using Cons.prems(2) by simp
    then have "f x \<noteq> f r" using Cons.prems(1) by auto
    then show ?thesis
      using Cons.IH [OF _ r Cons.prems(3)] Cons.prems(1) by simp
  qed
qed

lemma count_exclude_pushed:
  assumes "distinct (map row_id table)" and "r \<in> set table"
    and "row_id r \<notin> set ids" and "other_keys wh r"
  shows "count table (Some (exclude wh (ids @ [row_id r]))) + 1
         = count table (Some (exclude wh ids))"
proof -
  have "length (filter (\<lambda>x. (row_id x \<notin> set ids \<and> other_keys wh x) \<and> row_id x \<noteq> row_id r) table) + 1
        = length (filter (\<lambda>x. row_id x \<notin> set ids \<and> other_keys wh x) table)"
    using assms by (intro filter_without_one) simp_all
  moreover have "filter (matches (Some (exclude wh (ids @ [row_id r])))) table
        = filter (\<lambda>x. (row_id x \<notin> set ids \<and> other_keys wh x) \<and> row_id x \<noteq> row_id r) table"
    by (intro filter_cong) (auto simp: matches_exclude)
  moreover have "filter (matches (Some (exclude wh ids))) table
        = filter (\<lambda>x. row_id x \<notin> set ids \<and> other_keys wh x) table"
    by (intro filter_cong) (auto simp: matches_exclude)
  ultimately show ?thesis by (simp add: count_def)
qed

lemma length_filter_mono:
  "(\<And>x. P x \<Longrightarrow> Q x) \<Longrightarrow> length (filter P xs) \<le> length (filter Q xs)"
  by (induction xs) auto

lemma draw_loop_length:
  assumes "distinct (map row_id table)" and "\<forall>i. 0 \<le> rnd i \<and> rnd i < 1"
    and "numRows st \<le> int (count table (Some (exclude wh (rowIds st))))"
  shows "length (rows (fst (draw_loop (\<lambda>k. table) rnd wh num i st)))
           = length (rows st) + min (nat (num - int i)) (nat (numRows st))
       \<and> snd (draw_loop (\<lambda>k. table) rnd wh num i st) = None"
  using assms(2,3)
proof (induction "\<lambda>k::nat. table" rnd wh num i st rule: draw_loop.induct)
  case (1 rnd wh num i st)
  show ?case
  proof (cases rule: draw_loop_cases [of i num st "\<lambda>k. table" rnd wh])
    case exit
    then show ?thesis by auto
  next
    case miss
    have "0 \<le> rnd i" "rnd i < 1" "0 < numRows st"
      using "1.prems"(1) miss(1) by simp_all
    then have "random_skip (rnd i) (numRows st) < nat (numRows st)"
      by (rule random_skip_less)
    then have "random_skip (rnd i) (numRows st)
               < count table (Some (exclude wh (rowIds st)))"
      using "1.prems"(2) by linarith
    then show ?thesis
      using miss(2) by (simp add: draw_def findFirst_None_iff)
  next
    case (hit r)
    have "count table (Some (exclude wh (rowIds st @ [row_id r]))) + 1
          = count table (Some (exclude wh (rowIds st)))"
      using draw_Some [OF hit(2)] assms(1) by (intro count_exclude_pushed) simp_all
    then have "numRows (pushed st r)
               \<le> int (count table (Some (exclude wh (rowIds (pushed st r)))))"
      using "1.prems"(2) by simp
    from "1.hyps" [OF hit(1) hit(2) "1.prems"(1) this]
    have "length (rows (fst (draw_loop (\<lambda>k. table) rnd wh num i st)))
          = length (rows st) + Suc (min (nat (num - int (Suc i))) (nat (numRows st - 1)))"
      and n: "snd (draw_loop (\<lambda>k. table) rnd wh num i st) = None"
      using hit(3) by simp_all
    moreover have "nat (num - int i) = Suc (nat (num - int (Suc i)))"
      "nat (numRows st) = Suc (nat (numRows st - 1))"
      using hit(1) by linarith+
    ultimately show ?thesis by simp
  qed
qed

lemma draw_loop_rows:
  assumes "rowIds st = map row_id (rows st)" and "distinct (rowIds st)"
    and "\<forall>r\<in>set (rows st). r \<in> set table \<and> other_keys wh r"
  shows "rowIds (fst (draw_loop (\<lambda>k. table) rnd wh num i st))
           = map row_id (rows (fst (draw_loop (\<lambda>k. table) rnd wh num i st)))
       \<and> distinct (rowIds (fst (draw_loop (\<lambda>k. table) rnd wh num i st)))
       \<and> (\<forall>r\<in>set (rows (fst (draw_loop (\<lambda>k. table) rnd wh num i st))).
            r \<in> set table \<and> other_keys wh r)"
  using assms
proof (induction "\<lambda>k::nat. table" rnd wh num i st rule: draw_loop.induct)
  case (1 rnd wh num i st)
  show ?case
  proof (cases rule: draw_loop_cases [of i num st "\<lambda>k. table" rnd wh])
    case exit
    then show ?thesis using "1.prems" by simp
  next
    case miss
    then show ?thesis using "1.prems" by (cases "message wh (rowIds st)") simp_all
  next
    case (hit r)
    have "rowIds (pushed st r) = map row_id (rows (pushed st r))"
      "distinct (rowIds (pushed st r))"
      "\<forall>x\<in>set (rows (pushed st r)). x \<in> set table \<and> other_keys wh x"
      using "1.prems" draw_Some [OF hit(2)] by simp_all
    from "1.hyps" [OF hit(1) hit(2) this] show ?thesis
      unfolding hit(3) .
  qed
qed

text \<open>
  Support for claim C2: on a table that does not change and whose identifiers are
  distinct, with random numbers in \<open>[0, 1)\<close>, \<open>findManyRandom\<close> returns
  \<open>min num P\<close> rows with distinct identifiers, all of them rows of the table that
  satisfy the keys of the filter other than \<^verbatim>\<open>id\<close>; they match the whole filter when
  it has no top-level key \<^verbatim>\<open>id\<close>.
\<close>

lemma findManyRandom_sample:
  assumes "distinct (map row_id table)" and "\<forall>i. 0 \<le> rnd i \<and> rnd i < 1"
  shows "\<exists>found. findManyRandom (\<lambda>k. table) rnd num args = Inr found
       \<and> length found = min (nat num) (count table (args_where args))
       \<and> distinct (map row_id found)
       \<and> (\<forall>r\<in>set found.
            r \<in> set table \<and> other_keys (coalesce (args_where args) empty_where) r)
       \<and> (id_key (coalesce (args_where args) empty_where) = None \<longrightarrow>
            (\<forall>r\<in>set found. matches (args_where args) r))"
proof -
  let ?wh = "coalesce (args_where args) empty_where"
  let ?st = "draw_init (\<lambda>k. table) args"
  let ?fin = "fst (draw_loop (\<lambda>k. table) rnd ?wh num 0 ?st)"
  have "matches (Some (exclude ?wh [])) x" if "matches (Some ?wh) x" for x
    using that by (simp add: matches_exclude) (simp add: matches_def)
  then have "length (filter (matches (Some ?wh)) table)
        \<le> length (filter (matches (Some (exclude ?wh []))) table)"
    by (rule length_filter_mono)
  then have "numRows ?st \<le> int (count table (Some (exclude ?wh (rowIds ?st))))"
    by (simp add: count_def matches_coalesce)
  from draw_loop_length [OF assms this, of num 0]
  have l: "length (rows ?fin) = min (nat num) (count table (args_where args))"
    and n: "snd (draw_loop (\<lambda>k. table) rnd ?wh num 0 ?st) = None"
    by simp_all
  have f: "findManyRandom (\<lambda>k. table) rnd num args = Inr (rows ?fin)"
    using n by (simp add: findManyRandom_result findManyRandom_run_def)
  have "rowIds ?st = map row_id (rows ?st)" "distinct (rowIds ?st)"
    "\<forall>r\<in>set (rows ?st). r \<in> set table \<and> other_keys ?wh r"
    by simp_all
  from draw_loop_rows [OF this, of rnd num 0]
  have r1: "rowIds ?fin = map row_id (rows ?fin)" and r2: "distinct (rowIds ?fin)"
    and r3: "\<forall>r\<in>set (rows ?fin). r \<in> set table \<and> other_keys ?wh r"
    by blast+
  have d: "distinct (map row_id (rows ?fin))"
    using r2 unfolding r1 .
  have m: "matches (args_where args) x" if "id_key ?wh = None" "other_keys ?wh x" for x
    using that matches_coalesce [of "args_where args"]
    by (simp add: matches_def fun_eq_iff split: option.splits)
  show ?thesis
    using f l d r3 m by blast
qed

end
